theory Spec2Isabelle
  imports Complex_Main
begin

section \<open>Python values and exceptions\<close>

text \<open>
  Every \<^verbatim>\<open>raise\<close>, failed \<^verbatim>\<open>assert\<close> and failing builtin of
  \<^verbatim>\<open>pyscf/dh/util/frozen_core.py\<close> is a value of \<open>error\<close>; a function that can raise
  returns \<open>error + 'a\<close> with \<open>Inl\<close> for the exception. \<open>ValueError\<close> carries the message, so
  that the two validation errors of the module can be told from a \<open>ValueError\<close> of NumPy.
\<close>

datatype error =
    ValueError string
  | AssertionError
  | TypeError
  | IndexError
  | KeyError
  | ZeroDivisionError

text \<open>A \<^verbatim>\<open>for\<close> loop whose body may raise: the first exception ends the loop.\<close>

fun for_each :: "('a \<Rightarrow> 's \<Rightarrow> error + 's) \<Rightarrow> 'a list \<Rightarrow> 's \<Rightarrow> error + 's" where
  "for_each body [] s = Inr s"
| "for_each body (x # xs) s =
     (case body x s of Inl e \<Rightarrow> Inl e | Inr s' \<Rightarrow> for_each body xs s')"

text \<open>Python's \<^verbatim>\<open>max\<close> and \<^verbatim>\<open>min\<close> of a non-empty sequence.\<close>

definition py_max :: "'a::linorder list \<Rightarrow> 'a" where
  "py_max xs = fold max (tl xs) (hd xs)"

definition py_min :: "'a::linorder list \<Rightarrow> 'a" where
  "py_min xs = fold min (tl xs) (hd xs)"

section \<open>The electron configuration table\<close>

text \<open>
  \<^verbatim>\<open>CONFIGURATION\<close> is imported from \<^verbatim>\<open>pyscf.data.elements\<close>, a library outside this
  repository: one row per element, the electron counts of the s, p, d and f columns. It is a
  parameter of every function that reads it. A table is a list of rows (the levels), each a list
  of cells (the angular momenta), as \<^verbatim>\<open>table[level, angular]\<close> indexes it.
\<close>

type_synonym table = "nat list list"

definition MAX_LEVEL :: nat where
  "MAX_LEVEL = 7"

definition MAX_ANG :: nat where
  "MAX_ANG = 4"

definition zeros :: "nat \<Rightarrow> nat \<Rightarrow> table" where
  "zeros n m = replicate n (replicate m 0)"

text \<open>\<^verbatim>\<open>table[lo:hi, c] = v\<close> for non-negative bounds; the slice is clipped to the rows there are.\<close>

definition assign_col :: "nat \<Rightarrow> nat \<Rightarrow> nat \<Rightarrow> nat \<Rightarrow> table \<Rightarrow> table" where
  "assign_col lo hi c v t =
     (if hi \<le> lo then t
      else take lo t @ map (\<lambda>row. row[c := v]) (take (hi - lo) (drop lo t)) @ drop hi t)"

text \<open>\<^verbatim>\<open>table[r, c] = v\<close>, used with \<open>r\<close> in range only.\<close>

definition assign_cell :: "nat \<Rightarrow> nat \<Rightarrow> nat \<Rightarrow> table \<Rightarrow> table" where
  "assign_cell r c v t = t[r := (t ! r)[c := v]]"

text \<open>\<^verbatim>\<open>table[:k, c].sum()\<close> and \<^verbatim>\<open>table.sum()\<close>.\<close>

definition col_sum :: "nat \<Rightarrow> nat \<Rightarrow> table \<Rightarrow> nat" where
  "col_sum k c t = sum_list (map (\<lambda>row. row ! c) (take k t))"

definition table_sum :: "table \<Rightarrow> nat" where
  "table_sum t = sum_list (map sum_list t)"

text \<open>
  \<^verbatim>\<open>ElementConfiguration.__init__\<close>, for an element given by its atomic number
  (\<^verbatim>\<open>elements.charge\<close> returns a number unchanged).
\<close>

definition ElementConfiguration :: "nat list list \<Rightarrow> nat \<Rightarrow> error + nat" where
  "ElementConfiguration CONFIGURATION element =
     (if int element > int (length CONFIGURATION) - 1
      then Inl (ValueError ''Element too large.'')
      else Inr element)"

text \<open>The body of the loop over \<^verbatim>\<open>angular\<close> in \<^verbatim>\<open>get_configuration_table\<close>.\<close>

definition fill_angular :: "nat list \<Rightarrow> nat \<Rightarrow> table \<Rightarrow> error + table" where
  "fill_angular cfg angular table =
     (if length cfg \<le> angular then Inl IndexError
      else
        let angular_elec = cfg ! angular in
        if angular_elec = 0 then Inr table
        else
          let n_start = angular;
              n_end = n_start + angular_elec div (2 + 4 * angular);
              table1 = assign_col n_start n_end angular (2 + 4 * angular) table
          in if \<not> n_end \<le> MAX_LEVEL then Inl AssertionError
             else if n_end < MAX_LEVEL
               then Inr (assign_cell n_end angular (angular_elec mod (2 + 4 * angular)) table1)
               else Inr table1)"

definition get_configuration_table :: "nat list list \<Rightarrow> nat \<Rightarrow> error + table" where
  "get_configuration_table CONFIGURATION element =
     (case ElementConfiguration CONFIGURATION element of
        Inl e \<Rightarrow> Inl e
      | Inr elem \<Rightarrow>
          for_each (fill_angular (CONFIGURATION ! elem)) [0..<MAX_ANG] (zeros MAX_LEVEL MAX_ANG))"

text \<open>
  The argument \<^verbatim>\<open>level\<close> of \<^verbatim>\<open>get_active_table\<close> is an integer or a sequence of integers.
\<close>

datatype level = LevelInt int | LevelList "int list"

text \<open>\<^verbatim>\<open>np.arange(MAX_LEVEL)[table[:, 0] > 0]\<close>: the levels whose s cell is not empty.\<close>

definition non_empty_level :: "table \<Rightarrow> nat list" where
  "non_empty_level table = filter (\<lambda>i. 0 < table ! i ! 0) [0..<MAX_LEVEL]"

text \<open>
  The body of the loop over \<^verbatim>\<open>enumerate(level)\<close> in \<^verbatim>\<open>get_active_table\<close>. The levels
  are not negative there (an assertion before the loop), so \<^verbatim>\<open>table[:active, angular]\<close> is
  a slice from the start.
\<close>

definition active_angular :: "bool \<Rightarrow> nat \<times> int \<Rightarrow> table \<Rightarrow> error + table" where
  "active_angular is_active p table =
     (let angular = fst p; active = snd p in
      if \<not> is_active then
        (if col_sum (nat active) angular table mod (2 + 4 * angular) \<noteq> 0
         then Inl (ValueError ''Possibly active orbital electrons are frozen by current setting.'')
         else Inr (assign_col 0 (nat active) angular 0 table))
      else
        (let non_empty = non_empty_level table in
         if length non_empty = 0 then Inr table
         else
           let non_empty_largest = py_max non_empty;
               freeze_level = int non_empty_largest - active + 1
           in if freeze_level \<le> 0 then Inr table
              else if col_sum (nat freeze_level) angular table mod (2 + 4 * angular) \<noteq> 0
                then Inl (ValueError ''Possibly active orbital electrons are frozen by current setting.'')
                else Inr (assign_col 0 (nat freeze_level) angular 0 table)))"

text \<open>
  \<^verbatim>\<open>get_active_table\<close>. For an integer \<^verbatim>\<open>level\<close> the source binds \<^verbatim>\<open>active_level\<close>,
  never reads it, and \<^verbatim>\<open>len(level)\<close> raises \<^verbatim>\<open>TypeError\<close>.
\<close>

definition get_active_table :: "nat list list \<Rightarrow> nat \<Rightarrow> level \<Rightarrow> bool \<Rightarrow> error + table" where
  "get_active_table CONFIGURATION element lv is_active =
     (case get_configuration_table CONFIGURATION element of
        Inl e \<Rightarrow> Inl e
      | Inr table \<Rightarrow>
          (case lv of
             LevelInt n \<Rightarrow> Inl TypeError
           | LevelList level \<Rightarrow>
               if length level \<noteq> MAX_ANG then Inl AssertionError
               else if \<not> 0 \<le> py_min level then Inl AssertionError
               else for_each (active_angular is_active) (enumerate 0 level) table))"

definition get_num_core_electrons :: "nat list list \<Rightarrow> nat \<Rightarrow> level \<Rightarrow> bool \<Rightarrow> error + int" where
  "get_num_core_electrons CONFIGURATION element active_level by_valence =
     (case get_configuration_table CONFIGURATION element of
        Inl e \<Rightarrow> Inl e
      | Inr table \<Rightarrow>
          (case get_active_table CONFIGURATION element active_level by_valence of
             Inl e \<Rightarrow> Inl e
           | Inr active \<Rightarrow> Inr (int (table_sum table) - int (table_sum active))))"

text \<open>
  What the functions above need of the library table: one row per element 0 to 118, four
  columns, and in column \<open>l\<close> no more electrons than the levels \<open>l\<close> to 6 hold.
\<close>

definition fits :: "nat list \<Rightarrow> bool" where
  "fits cfg \<longleftrightarrow>
     length cfg = MAX_ANG \<and>
     list_all (\<lambda>l. cfg ! l \<le> (2 + 4 * l) * (MAX_LEVEL - l)) [0..<MAX_ANG]"

definition wf_CONFIGURATION :: "nat list list \<Rightarrow> bool" where
  "wf_CONFIGURATION CONFIGURATION \<longleftrightarrow> length CONFIGURATION = 119 \<and> list_all fits CONFIGURATION"

text \<open>
  An instance of the parameter: the ground-state configurations of the elements 0 (ghost atom)
  to 118, as electron counts in the s, p, d and f columns.
\<close>

definition ground_state_CONFIGURATION :: "nat list list" where
  "ground_state_CONFIGURATION =
    [
     [0, 0, 0, 0], [1, 0, 0, 0], [2, 0, 0, 0], [3, 0, 0, 0], [4, 0, 0, 0],
     [4, 1, 0, 0], [4, 2, 0, 0], [4, 3, 0, 0], [4, 4, 0, 0], [4, 5, 0, 0],
     [4, 6, 0, 0], [5, 6, 0, 0], [6, 6, 0, 0], [6, 7, 0, 0], [6, 8, 0, 0],
     [6, 9, 0, 0], [6, 10, 0, 0], [6, 11, 0, 0], [6, 12, 0, 0], [7, 12, 0, 0],
     [8, 12, 0, 0], [8, 12, 1, 0], [8, 12, 2, 0], [8, 12, 3, 0], [7, 12, 5, 0],
     [8, 12, 5, 0], [8, 12, 6, 0], [8, 12, 7, 0], [8, 12, 8, 0], [7, 12, 10, 0],
     [8, 12, 10, 0], [8, 13, 10, 0], [8, 14, 10, 0], [8, 15, 10, 0], [8, 16, 10, 0],
     [8, 17, 10, 0], [8, 18, 10, 0], [9, 18, 10, 0], [10, 18, 10, 0], [10, 18, 11, 0],
     [10, 18, 12, 0], [9, 18, 14, 0], [9, 18, 15, 0], [10, 18, 15, 0], [9, 18, 17, 0],
     [9, 18, 18, 0], [8, 18, 20, 0], [9, 18, 20, 0], [10, 18, 20, 0], [10, 19, 20, 0],
     [10, 20, 20, 0], [10, 21, 20, 0], [10, 22, 20, 0], [10, 23, 20, 0], [10, 24, 20, 0],
     [11, 24, 20, 0], [12, 24, 20, 0], [12, 24, 21, 0], [12, 24, 21, 1], [12, 24, 20, 3],
     [12, 24, 20, 4], [12, 24, 20, 5], [12, 24, 20, 6], [12, 24, 20, 7], [12, 24, 21, 7],
     [12, 24, 21, 8], [12, 24, 20, 10], [12, 24, 20, 11], [12, 24, 20, 12], [12, 24, 20, 13],
     [12, 24, 20, 14], [12, 24, 21, 14], [12, 24, 22, 14], [12, 24, 23, 14], [12, 24, 24, 14],
     [12, 24, 25, 14], [12, 24, 26, 14], [12, 24, 27, 14], [11, 24, 29, 14], [11, 24, 30, 14],
     [12, 24, 30, 14], [12, 25, 30, 14], [12, 26, 30, 14], [12, 27, 30, 14], [12, 28, 30, 14],
     [12, 29, 30, 14], [12, 30, 30, 14], [13, 30, 30, 14], [14, 30, 30, 14], [14, 30, 31, 14],
     [14, 30, 32, 14], [14, 30, 31, 16], [14, 30, 31, 17], [14, 30, 31, 18], [14, 30, 30, 20],
     [14, 30, 30, 21], [14, 30, 31, 21], [14, 30, 31, 22], [14, 30, 30, 24], [14, 30, 30, 25],
     [14, 30, 30, 26], [14, 30, 30, 27], [14, 30, 30, 28], [14, 30, 31, 28], [14, 30, 32, 28],
     [14, 30, 33, 28], [14, 30, 34, 28], [14, 30, 35, 28], [14, 30, 36, 28], [14, 30, 37, 28],
     [14, 30, 38, 28], [14, 30, 39, 28], [14, 30, 40, 28], [14, 31, 40, 28], [14, 32, 40, 28],
     [14, 33, 40, 28], [14, 34, 40, 28], [14, 35, 40, 28], [14, 36, 40, 28]
    ]"

text \<open>Shape facts used to reason about tables: seven rows of four cells, and an empty column.\<close>

definition shaped :: "table \<Rightarrow> bool" where
  "shaped t \<longleftrightarrow> length t = MAX_LEVEL \<and> list_all (\<lambda>row. length row = MAX_ANG) t"

definition col_zero :: "nat \<Rightarrow> table \<Rightarrow> bool" where
  "col_zero c t \<longleftrightarrow> list_all (\<lambda>row. row ! c = 0) t"

section \<open>Frozen rules\<close>

text \<open>
  A rule object holds \<^verbatim>\<open>active_levels\<close>, one row of four level counts per element, and
  \<^verbatim>\<open>is_active\<close>. Each \<^verbatim>\<open>define_active_levels\<close> starts from
  \<^verbatim>\<open>np.zeros((len(CONFIGURATION), MAX_ANG))\<close> and assigns rows in the order of the source;
  \<open>set_rows\<close> is one such assignment (on a table of 119 rows every index is in range).
\<close>

record FrozenRuleBase =
  active_levels :: "int list list"
  is_active :: bool

definition set_rows :: "nat list \<Rightarrow> int list \<Rightarrow> int list list \<Rightarrow> int list list" where
  "set_rows idx row levels = fold (\<lambda>i t. t[i := row]) idx levels"

definition idx_alk_metal :: "nat list" where
  "idx_alk_metal = [3, 4, 11, 12, 19, 20, 37, 38, 55, 56, 87, 88]"

definition idx_transition :: "nat list" where
  "idx_transition = [21..<31] @ [39..<49] @ [72..<81] @ [104..<113]"

definition idx_p_main :: "nat list" where
  "idx_p_main = [5..<11] @ [13..<19] @ [31..<37] @ [49..<55] @ [81..<87] @ [113..<119]"

definition idx_la :: "nat list" where
  "idx_la = [57..<72]"

definition idx_ac :: "nat list" where
  "idx_ac = [89..<104]"

definition no_levels :: "nat list list \<Rightarrow> int list list" where
  "no_levels CONFIGURATION = replicate (length CONFIGURATION) (replicate MAX_ANG 0)"

definition FrozenRuleNone :: "nat list list \<Rightarrow> FrozenRuleBase" where
  "FrozenRuleNone CONFIGURATION =
     \<lparr>active_levels = no_levels CONFIGURATION, is_active = False\<rparr>"

definition FrozenRuleORCA :: "nat list list \<Rightarrow> FrozenRuleBase" where
  "FrozenRuleORCA CONFIGURATION =
     \<lparr>active_levels =
        set_rows [104..<113] [1, 1, 2, 2]
         (set_rows idx_p_main [1, 1, 2, 2]
           (set_rows idx_transition [2, 2, 2, 3]
             (set_rows idx_ac [2, 2, 3, 3]
               (set_rows idx_la [2, 2, 3, 3]
                 (set_rows idx_alk_metal [2, 2, 3, 3]
                   (set_rows [0..<3] [1, 1, 1, 1] (no_levels CONFIGURATION))))))),
      is_active = True\<rparr>"

definition FrozenRuleNobleGasCore :: "nat list list \<Rightarrow> FrozenRuleBase" where
  "FrozenRuleNobleGasCore CONFIGURATION =
     \<lparr>active_levels =
        set_rows [0..<length CONFIGURATION] [1, 1, 2, 3] (no_levels CONFIGURATION),
      is_active = True\<rparr>"

definition FrozenRuleInnerNobleGasCore :: "nat list list \<Rightarrow> FrozenRuleBase" where
  "FrozenRuleInnerNobleGasCore CONFIGURATION =
     \<lparr>active_levels =
        set_rows [0..<length CONFIGURATION] [2, 2, 3, 4] (no_levels CONFIGURATION),
      is_active = True\<rparr>"

definition FrozenRuleSmallCore :: "nat list list \<Rightarrow> FrozenRuleBase" where
  "FrozenRuleSmallCore CONFIGURATION =
     \<lparr>active_levels =
        set_rows [3..<5] [1, 1, 2, 3]
         (set_rows idx_alk_metal [2, 2, 2, 3]
           (set_rows [0..<length CONFIGURATION] [1, 1, 2, 3] (no_levels CONFIGURATION))),
      is_active = True\<rparr>"

definition FrozenRuleLargeCore :: "nat list list \<Rightarrow> FrozenRuleBase" where
  "FrozenRuleLargeCore CONFIGURATION =
     \<lparr>active_levels =
        set_rows idx_transition [1, 1, 2, 2]
         (set_rows idx_p_main [1, 1, 1, 2]
           (set_rows [0..<length CONFIGURATION] [1, 1, 2, 3] (no_levels CONFIGURATION))),
      is_active = True\<rparr>"

text \<open>
  \<^verbatim>\<open>FrozenRuleBase.get_num_core\<close>: the row \<^verbatim>\<open>self.active_levels[chrg]\<close> is a sequence,
  never a plain integer.
\<close>

definition get_num_core :: "nat list list \<Rightarrow> FrozenRuleBase \<Rightarrow> nat \<Rightarrow> error + int" where
  "get_num_core CONFIGURATION self elem =
     (case ElementConfiguration CONFIGURATION elem of
        Inl e \<Rightarrow> Inl e
      | Inr chrg \<Rightarrow>
          if length (active_levels self) \<le> chrg then Inl IndexError
          else get_num_core_electrons CONFIGURATION elem
                 (LevelList (active_levels self ! chrg)) (is_active self))"

text \<open>The registry \<^verbatim>\<open>FrozenRules\<close>, and the key \<^verbatim>\<open>re.sub("[-_ ]", "", name.lower())\<close> (ASCII names).\<close>

definition FrozenRules :: "nat list list \<Rightarrow> (string \<times> FrozenRuleBase) list" where
  "FrozenRules CONFIGURATION =
     [(''none'', FrozenRuleNone CONFIGURATION),
      (''pyscf'', FrozenRuleORCA CONFIGURATION),
      (''orca'', FrozenRuleORCA CONFIGURATION),
      (''freezenoblegascore'', FrozenRuleNobleGasCore CONFIGURATION),
      (''freezeinnernoblegascore'', FrozenRuleInnerNobleGasCore CONFIGURATION),
      (''smallcore'', FrozenRuleSmallCore CONFIGURATION),
      (''largecore'', FrozenRuleLargeCore CONFIGURATION)]"

definition lower_char :: "char \<Rightarrow> char" where
  "lower_char c =
     (let n = (of_char c :: nat) in if 65 \<le> n \<and> n \<le> 90 then char_of (n + 32) else c)"

definition rule_key :: "string \<Rightarrow> string" where
  "rule_key name = filter (\<lambda>c. \<not> List.member ''-_ '' c) (map lower_char name)"

section \<open>The frozen-number resolver\<close>

text \<open>
  A molecule, as \<^verbatim>\<open>parse_frozen_numbers\<close> and \<^verbatim>\<open>check_sanity\<close> read it: for each atom the pair
  of \<^verbatim>\<open>mol.atom_charge(idx)\<close> (the electrons the atom brings, fewer than the nuclear charge
  under an effective core potential) and \<^verbatim>\<open>elements.charge(mol.atom_symbol(idx))\<close>; and
  \<^verbatim>\<open>mol.nelectron\<close>.
\<close>

record Mole =
  atoms :: "(int \<times> nat) list"
  nelectron :: int

text \<open>
  The value of \<^verbatim>\<open>rule\<close>, by its Python type. A tuple item is an \<^verbatim>\<open>int\<close> or something
  else; a dictionary is listed with its keys already atomic numbers (\<^verbatim>\<open>elements.charge\<close>
  leaves them unchanged), a later entry overriding an earlier one; a list of indices is flat
  (\<open>RuleList\<close>) or one list per occupation set (\<open>RuleLists\<close>); \<open>RuleArray\<close> is a NumPy array of
  indices.
\<close>

datatype tuple_item = ItemInt int | ItemOther

datatype atom_rule =
    AtomStr string
  | AtomObj FrozenRuleBase
  | AtomTuple "int list"
  | AtomOther

datatype rule_spec =
    RuleNone
  | RuleTuple "tuple_item list"
  | RuleDict "(nat \<times> atom_rule) list"
  | RuleList "int list"
  | RuleLists "int list list"
  | RuleArray "int list"
  | RuleStr string
  | RuleObj FrozenRuleBase
  | RuleInt int

text \<open>"determine rule of current atom": \<^verbatim>\<open>rule[nchrg]\<close> for a dictionary, else the rule itself.\<close>

definition rule_of_atom :: "rule_spec \<Rightarrow> nat \<Rightarrow> error + atom_rule" where
  "rule_of_atom rule nchrg =
     (case rule of
        RuleDict d \<Rightarrow> (case map_of (rev d) nchrg of None \<Rightarrow> Inl KeyError | Some r \<Rightarrow> Inr r)
      | RuleStr name \<Rightarrow> Inr (AtomStr name)
      | RuleObj r \<Rightarrow> Inr (AtomObj r)
      | _ \<Rightarrow> Inr AtomOther)"

text \<open>
  "determine frozen-core number of atom": the pair \<^verbatim>\<open>(f_occ_atom, f_vir_atom)\<close> before the
  effective core potential is looked at.
\<close>

definition frozen_of_rule :: "nat list list \<Rightarrow> atom_rule \<Rightarrow> nat \<Rightarrow> error + int \<times> int" where
  "frozen_of_rule CONFIGURATION rule_atom nchrg =
     (case rule_atom of
        AtomStr name \<Rightarrow>
          (case map_of (FrozenRules CONFIGURATION) (rule_key name) of
             None \<Rightarrow> Inl KeyError
           | Some r \<Rightarrow>
               (case get_num_core CONFIGURATION r nchrg of
                  Inl e \<Rightarrow> Inl e
                | Inr n \<Rightarrow> Inr (n, 0)))
      | AtomObj r \<Rightarrow>
          (case get_num_core CONFIGURATION r nchrg of
             Inl e \<Rightarrow> Inl e
           | Inr n \<Rightarrow> Inr (n, 0))
      | AtomTuple items \<Rightarrow>
          (if length items = 2 then Inr (items ! 0, items ! 1)
           else Inl (ValueError ''wrong number of values to unpack''))
      | AtomOther \<Rightarrow> Inr (0, 0))"

text \<open>
  "finalize frozen core evaluation of atom": what the atom adds to \<^verbatim>\<open>f_occ\<close>, from the rule's
  value \<^verbatim>\<open>f_occ_atom\<close>.
\<close>

definition finalize_atom :: "bool \<Rightarrow> int \<Rightarrow> nat \<Rightarrow> int \<Rightarrow> int" where
  "finalize_atom ecp_only nelec nchrg f_occ_atom =
     (let is_ecp = (nelec \<noteq> int nchrg) in
      if is_ecp \<and> ecp_only then 0
      else if is_ecp then f_occ_atom - min f_occ_atom (int nchrg - nelec)
      else f_occ_atom)"

text \<open>The body of the loop over the atoms; the state is \<^verbatim>\<open>(f_occ, f_vir)\<close>.\<close>

definition parse_atom ::
  "nat list list \<Rightarrow> rule_spec \<Rightarrow> bool \<Rightarrow> int \<times> nat \<Rightarrow> int \<times> int \<Rightarrow> error + int \<times> int" where
  "parse_atom CONFIGURATION rule ecp_only atom acc =
     (let nelec = fst atom; nchrg = snd atom in
      case rule_of_atom rule nchrg of
        Inl e \<Rightarrow> Inl e
      | Inr rule_atom \<Rightarrow>
          (case frozen_of_rule CONFIGURATION rule_atom nchrg of
             Inl e \<Rightarrow> Inl e
           | Inr fa \<Rightarrow>
               Inr (fst acc + finalize_atom ecp_only nelec nchrg (fst fa), snd acc + snd fa)))"

definition parse_frozen_numbers ::
  "nat list list \<Rightarrow> Mole \<Rightarrow> rule_spec \<Rightarrow> bool \<Rightarrow> error + int \<times> int" where
  "parse_frozen_numbers CONFIGURATION mol rule ecp_only =
     (case rule of
        RuleNone \<Rightarrow> Inr (0, 0)
      | RuleTuple items \<Rightarrow>
          (case items of
             [ItemInt a, ItemInt b] \<Rightarrow> Inr (a, b)
           | _ \<Rightarrow> Inl AssertionError)
      | _ \<Rightarrow> for_each (parse_atom CONFIGURATION rule ecp_only) (atoms mol) (0, 0))"

text \<open>The pair a rule gives for an atom of nuclear charge \<open>nchrg\<close>: the two lookups of the loop body.\<close>

definition rule_value :: "nat list list \<Rightarrow> rule_spec \<Rightarrow> nat \<Rightarrow> error + int \<times> int" where
  "rule_value CONFIGURATION rule nchrg =
     (case rule_of_atom rule nchrg of
        Inl e \<Rightarrow> Inl e
      | Inr rule_atom \<Rightarrow> frozen_of_rule CONFIGURATION rule_atom nchrg)"

section \<open>The active-mask builder\<close>

text \<open>
  A NumPy array of one or two dimensions. Occupation numbers are integers (the check
  \<^verbatim>\<open>np.allclose(mo_occ.round(), mo_occ)\<close> of \<^verbatim>\<open>check_sanity\<close> holds by type).
\<close>

datatype 'a ndarray = Array1 "'a list" | Array2 "'a list list"

fun ndim :: "'a ndarray \<Rightarrow> nat" where
  "ndim (Array1 xs) = 1"
| "ndim (Array2 rows) = 2"

fun shape :: "'a ndarray \<Rightarrow> nat list" where
  "shape (Array1 xs) = [length xs]"
| "shape (Array2 rows) = [length rows, (case rows of [] \<Rightarrow> 0 | r # _ \<Rightarrow> length r)]"

text \<open>The array as two-dimensional: itself, or \<^verbatim>\<open>reshape((1, -1))\<close> of a one-dimensional one.\<close>

fun as_2d :: "'a ndarray \<Rightarrow> 'a list list" where
  "as_2d (Array1 xs) = [xs]"
| "as_2d (Array2 rows) = rows"

text \<open>\<^verbatim>\<open>a.reshape((1, -1))\<close> whatever the dimension.\<close>

fun reshape_1_row :: "'a ndarray \<Rightarrow> 'a ndarray" where
  "reshape_1_row (Array1 xs) = Array2 [xs]"
| "reshape_1_row (Array2 rows) = Array2 [concat rows]"

fun array_sum :: "int ndarray \<Rightarrow> int" where
  "array_sum (Array1 xs) = sum_list xs"
| "array_sum (Array2 rows) = sum_list (map sum_list rows)"

text \<open>\<^verbatim>\<open>mask.shape = self.mo_occ.shape\<close> for a mask of shape \<^verbatim>\<open>(nset, nmo)\<close>.\<close>

fun reshape_like :: "'a ndarray \<Rightarrow> 'b list list \<Rightarrow> 'b ndarray" where
  "reshape_like (Array1 xs) m = Array1 (concat m)"
| "reshape_like (Array2 rows) m = Array2 m"

datatype frozen_index = Index1 "nat list" | Index2 "nat list list"

text \<open>
  The object: the five inputs, and the two memoized fields \<^verbatim>\<open>_mask\<close> and \<^verbatim>\<open>_frozen\<close>,
  where \<open>None\<close> is the marker \<^verbatim>\<open>NotImplemented\<close>.
\<close>

record FrozenCore =
  fc_mol :: Mole
  fc_mo_occ :: "int ndarray"
  fc_mo_energy :: "real ndarray option"
  fc_rule :: rule_spec
  fc_ecp_only :: bool
  fc_mask :: "bool ndarray option"
  fc_frozen :: "frozen_index option"

definition FrozenCore_init ::
  "Mole \<Rightarrow> int ndarray \<Rightarrow> rule_spec \<Rightarrow> bool \<Rightarrow> real ndarray option \<Rightarrow> FrozenCore" where
  "FrozenCore_init mol mo_occ rule ecp_only mo_energy =
     \<lparr>fc_mol = mol, fc_mo_occ = mo_occ, fc_mo_energy = mo_energy, fc_rule = rule,
      fc_ecp_only = ecp_only, fc_mask = None, fc_frozen = None\<rparr>"

definition reset :: "FrozenCore \<Rightarrow> FrozenCore" where
  "reset self = self\<lparr>fc_mask := None, fc_frozen := None\<rparr>"

text \<open>
  \<^verbatim>\<open>check_sanity\<close>: the sum, the shape of the energies, and each row equal to its sorted self
  reversed.
\<close>

definition check_sanity :: "FrozenCore \<Rightarrow> error + unit" where
  "check_sanity self =
     (if array_sum (fc_mo_occ self) \<noteq> nelectron (fc_mol self) then Inl AssertionError
      else if (case fc_mo_energy self of
                 None \<Rightarrow> False
               | Some mo_energy \<Rightarrow> shape (fc_mo_occ self) \<noteq> shape mo_energy)
        then Inl AssertionError
      else if \<not> list_all (\<lambda>row. rev (sort row) = row) (as_2d (fc_mo_occ self))
        then Inl AssertionError
      else Inr ())"

text \<open>
  Python's slices on a sequence of length \<open>len\<close>: the number of elements of \<^verbatim>\<open>[:n]\<close>, and the
  first index of \<^verbatim>\<open>[-n:]\<close> for a positive \<open>n\<close>.
\<close>

definition slice_stop :: "nat \<Rightarrow> int \<Rightarrow> nat" where
  "slice_stop len n = (if n < 0 then nat (int len + n) else min len (nat n))"

definition slice_start_from_end :: "nat \<Rightarrow> int \<Rightarrow> nat" where
  "slice_start_from_end len n = nat (int len - n)"

text \<open>\<^verbatim>\<open>row[:n] = False\<close>, and \<^verbatim>\<open>row[-n:] = False\<close> for a positive \<open>n\<close>, on a row of length \<open>nmo\<close>.\<close>

definition freeze_low :: "nat \<Rightarrow> int \<Rightarrow> bool list \<Rightarrow> bool list" where
  "freeze_low nmo n row =
     replicate (slice_stop nmo n) False @ drop (slice_stop nmo n) row"

definition freeze_high :: "nat \<Rightarrow> int \<Rightarrow> bool list \<Rightarrow> bool list" where
  "freeze_high nmo n row =
     take (slice_start_from_end nmo n) row @ replicate (nmo - slice_start_from_end nmo n) False"

text \<open>
  \<^verbatim>\<open>parse_active_mask_by_elec\<close>, for \<^verbatim>\<open>f_occ\<close> and \<^verbatim>\<open>f_vir\<close> Python integers:
  \<^verbatim>\<open>np.max\<close> of an array without elements raises, and so does \<^verbatim>\<open>%\<close> by zero.
  \<open>electrons_per_index\<close> is the divisor \<^verbatim>\<open>nset * orb_elec\<close>.
\<close>

definition electrons_per_index :: "int list list \<Rightarrow> int" where
  "electrons_per_index mo_occ = int (length mo_occ) * py_max (concat mo_occ)"

definition parse_active_mask_by_elec :: "int list list \<Rightarrow> int \<Rightarrow> int \<Rightarrow> error + bool list list" where
  "parse_active_mask_by_elec mo_occ f_occ f_vir =
     (if concat mo_occ = []
      then Inl (ValueError ''zero-size array to reduction operation maximum which has no identity'')
      else
        let orb_elec = py_max (concat mo_occ);
            nset = length mo_occ;
            nmo = last (shape (Array2 mo_occ))
        in if int nset * orb_elec = 0 then Inl ZeroDivisionError
           else if \<not> (f_occ mod (int nset * orb_elec) = 0 \<and> f_vir mod (int nset * orb_elec) = 0)
             then Inl (ValueError ''Could not partially freeze orbitals with several spins or half-frozen.'')
             else
               let n_occ_frz = f_occ div (int nset * orb_elec);
                   n_vir_frz = f_vir div (int nset * orb_elec);
                   mask0 = replicate nset (replicate nmo True);
                   mask1 = map (freeze_low nmo n_occ_frz) mask0;
                   mask2 = (if 0 < n_vir_frz then map (freeze_high nmo n_vir_frz) mask1 else mask1)
               in Inr mask2)"

text \<open>
  \<^verbatim>\<open>mask[i, arr] = False\<close> on one row of length \<open>nmo\<close>: an index counts from the end when
  negative and raises \<^verbatim>\<open>IndexError\<close> out of range.
\<close>

definition freeze_row :: "nat \<Rightarrow> int list \<Rightarrow> bool list \<Rightarrow> error + bool list" where
  "freeze_row nmo arr row =
     (if list_all (\<lambda>i. - int nmo \<le> i \<and> i < int nmo) arr
      then Inr (fold (\<lambda>i r. r[nat (if i < 0 then i + int nmo else i) := False]) arr row)
      else Inl IndexError)"

text \<open>The loop \<^verbatim>\<open>for i, arr_i in enumerate(arr): mask[i, arr_i] = False\<close>.\<close>

fun freeze_rows :: "nat \<Rightarrow> int list list \<Rightarrow> bool list list \<Rightarrow> error + bool list list" where
  "freeze_rows nmo (arr_i # arr) (row # m) =
     (case freeze_row nmo arr_i row of
        Inl e \<Rightarrow> Inl e
      | Inr row' \<Rightarrow>
          (case freeze_rows nmo arr m of Inl e \<Rightarrow> Inl e | Inr m' \<Rightarrow> Inr (row' # m')))"
| "freeze_rows nmo arr m = Inr m"

text \<open>
  \<^verbatim>\<open>get_active_mask\<close>. \<^verbatim>\<open>isinstance(self.rule, list or np.ndarray)\<close> is
  \<^verbatim>\<open>isinstance(self.rule, list)\<close>, so only the two list forms take the first branch. For a
  tuple the second test evaluates \<^verbatim>\<open>self.rule[0]\<close> and then
  \<^verbatim>\<open>isinstance(self.rule[0], "str")\<close>, which raises \<^verbatim>\<open>TypeError\<close> (the second argument
  is a string, not a type), so the energy and Gaussian windows are never reached. Everything
  else is rule-based.
\<close>

definition get_active_mask :: "nat list list \<Rightarrow> FrozenCore \<Rightarrow> error + bool ndarray" where
  "get_active_mask CONFIGURATION self =
     (case check_sanity self of
        Inl e \<Rightarrow> Inl e
      | Inr _ \<Rightarrow>
          let nset = (if ndim (fc_mo_occ self) = 2 then hd (shape (fc_mo_occ self)) else 1);
              nmo = last (shape (fc_mo_occ self));
              mo_occ = as_2d (fc_mo_occ self)
          in if (case fc_mo_energy self of
                   None \<Rightarrow> False
                 | Some en \<Rightarrow>
                     shape (Array2 mo_occ) \<noteq> shape (if ndim en = 1 then en else reshape_1_row en))
             then Inl AssertionError
             else
               (case
                  (case fc_rule self of
                     RuleList arr \<Rightarrow>
                       if arr = [] then Inl IndexError
                       else (case freeze_row nmo arr (replicate nmo True) of
                               Inl e \<Rightarrow> Inl e
                             | Inr row \<Rightarrow> Inr (replicate nset row))
                   | RuleLists arr \<Rightarrow>
                       if arr = [] then Inl IndexError
                       else if length arr \<noteq> nset then Inl AssertionError
                       else freeze_rows nmo arr (replicate nset (replicate nmo True))
                   | RuleTuple items \<Rightarrow>
                       if items = [] then Inl IndexError else Inl TypeError
                   | _ \<Rightarrow>
                       (case parse_frozen_numbers CONFIGURATION (fc_mol self) (fc_rule self)
                               (fc_ecp_only self) of
                          Inl e \<Rightarrow> Inl e
                        | Inr f \<Rightarrow> parse_active_mask_by_elec mo_occ (fst f) (snd f)))
                of
                  Inl e \<Rightarrow> Inl e
                | Inr m \<Rightarrow> Inr (reshape_like (fc_mo_occ self) m)))"

text \<open>The property \<^verbatim>\<open>mask\<close>: the memoized mask, computed on the first access.\<close>

definition mask_property ::
  "nat list list \<Rightarrow> FrozenCore \<Rightarrow> (error + bool ndarray) \<times> FrozenCore" where
  "mask_property CONFIGURATION self =
     (case fc_mask self of
        Some m \<Rightarrow> (Inr m, self)
      | None \<Rightarrow>
          (case get_active_mask CONFIGURATION self of
             Inl e \<Rightarrow> (Inl e, self)
           | Inr m \<Rightarrow> (Inr m, self\<lparr>fc_mask := Some m\<rparr>)))"

text \<open>\<^verbatim>\<open>np.arange(n)[row]\<close> for a boolean row: the indices where it is true.\<close>

definition where_true :: "bool list \<Rightarrow> nat list" where
  "where_true row = filter (\<lambda>i. row ! i) [0..<length row]"

definition frozen ::
  "nat list list \<Rightarrow> FrozenCore \<Rightarrow> (error + frozen_index) \<times> FrozenCore" where
  "frozen CONFIGURATION self =
     (case fc_frozen self of
        Some f \<Rightarrow> (Inr f, self)
      | None \<Rightarrow>
          (case mask_property CONFIGURATION self of
             (Inl e, self1) \<Rightarrow> (Inl e, self1)
           | (Inr m, self1) \<Rightarrow>
               let f = (case m of
                          Array1 row \<Rightarrow> Index1 (where_true row)
                        | Array2 rows \<Rightarrow> Index2 (map where_true rows))
               in (Inr f, self1\<lparr>fc_frozen := Some f\<rparr>)))"

section \<open>Sample molecules\<close>

text \<open>Two closed-shell molecules without effective core potentials, for concrete evaluations.\<close>

definition hydrogen_molecule :: Mole where
  "hydrogen_molecule = \<lparr>atoms = [(1, 1), (1, 1)], nelectron = 2\<rparr>"

definition water_molecule :: Mole where
  "water_molecule = \<lparr>atoms = [(8, 8), (1, 1), (1, 1)], nelectron = 10\<rparr>"

text \<open>Iodine with an effective core potential that replaces 28 electrons, hydrogen and oxygen.\<close>

definition iodine_compound :: Mole where
  "iodine_compound = \<lparr>atoms = [(25, 53), (1, 1), (8, 8)], nelectron = 34\<rparr>"

section \<open>The cut of the active branch\<close>

text \<open>
  The cut \<^verbatim>\<open>non_empty_largest - active + 1\<close> of a column with level count \<open>N\<close>, from the s
  column of a table; \<^verbatim>\<open>table[:freeze_level, c] = 0\<close> for a positive cut; and the failing
  sanity check: a positive cut with electrons below it that are not whole shells.
\<close>

definition s_cut :: "table \<Rightarrow> int \<Rightarrow> int" where
  "s_cut table N = int (py_max (non_empty_level table)) - N + 1"

definition zero_below :: "nat \<Rightarrow> int \<Rightarrow> table \<Rightarrow> table" where
  "zero_below c fl t = (if fl \<le> 0 then t else assign_col 0 (nat fl) c 0 t)"

definition incomplete_shell :: "table \<Rightarrow> nat \<Rightarrow> int \<Rightarrow> bool" where
  "incomplete_shell table c fl \<longleftrightarrow>
     0 < fl \<and> col_sum (nat fl) c table mod (2 + 4 * c) \<noteq> 0"


text \<open>
  The active branch as the specification words it: the cut of a column is taken from the
  highest non-empty level of that same column. It is compared with \<open>get_active_table\<close>
  below.
\<close>

definition spec_active_angular :: "nat \<times> int \<Rightarrow> table \<Rightarrow> error + table" where
  "spec_active_angular p table =
     (let angular = fst p; active = snd p;
          non_empty = filter (\<lambda>i. 0 < table ! i ! angular) [0..<MAX_LEVEL]
      in if length non_empty = 0 then Inr table
         else
           let freeze_level = int (py_max non_empty) - active + 1
           in if freeze_level \<le> 0 then Inr table
              else if col_sum (nat freeze_level) angular table mod (2 + 4 * angular) \<noteq> 0
                then Inl (ValueError ''Possibly active orbital electrons are frozen by current setting.'')
                else Inr (assign_col 0 (nat freeze_level) angular 0 table))"

definition spec_get_active_table :: "nat list list \<Rightarrow> nat \<Rightarrow> int list \<Rightarrow> error + table" where
  "spec_get_active_table CONFIGURATION element level =
     (case get_configuration_table CONFIGURATION element of
        Inl e \<Rightarrow> Inl e
      | Inr table \<Rightarrow> for_each spec_active_angular (enumerate 0 level) table)"

section \<open>Properties of the configuration table\<close>

lemma sum_list_update_zero:
  "c < length row \<Longrightarrow> row ! c = (0::nat) \<Longrightarrow> sum_list (row[c := v]) = sum_list row + v"
  by (simp add: sum_list_update)

lemma table_sum_map_update:
  "list_all (\<lambda>row. c < length row \<and> row ! c = 0) rows \<Longrightarrow>
   sum_list (map sum_list (map (\<lambda>row. row[c := v]) rows)) = sum_list (map sum_list rows) + v * length rows"
  by (induction rows) (simp_all add: sum_list_update_zero)

lemma table_sum_assign_col:
  assumes "list_all (\<lambda>row. c < length row \<and> row ! c = 0) t" "lo \<le> hi"
  shows "table_sum (assign_col lo hi c v t) = table_sum t + v * (min hi (length t) - lo)"
proof (cases "hi \<le> lo")
  case True
  with assms show ?thesis by (simp add: assign_col_def)
next
  case False
  have mid: "list_all (\<lambda>row. c < length row \<and> row ! c = 0) (take (hi - lo) (drop lo t))"
    using assms(1) by (auto simp: list_all_iff dest: in_set_takeD in_set_dropD)
  have split: "t = take lo t @ take (hi - lo) (drop lo t) @ drop hi t"
    using False by (metis add_diff_inverse_nat append_take_drop_id drop_drop nat_le_linear not_less add.commute)
  have "table_sum t = sum_list (map sum_list (take lo t)) + sum_list (map sum_list (take (hi - lo) (drop lo t)))
           + sum_list (map sum_list (drop hi t))"
    unfolding table_sum_def by (subst split) simp
  moreover have "length (take (hi - lo) (drop lo t)) = min hi (length t) - lo"
    by auto
  ultimately show ?thesis
    using False table_sum_map_update[OF mid, of v]
    by (simp add: assign_col_def table_sum_def)
qed

lemma table_sum_assign_cell:
  assumes "r < length t" "c < length (t ! r)" "t ! r ! c = 0"
  shows "table_sum (assign_cell r c v t) = table_sum t + v"
proof -
  have "sum_list (map sum_list (t[r := (t ! r)[c := v]])) =
        sum_list ((map sum_list t)[r := sum_list ((t ! r)[c := v])])"
    by (simp add: map_update)
  also have "\<dots> = sum_list (map sum_list t) + sum_list ((t ! r)[c := v]) - (map sum_list t) ! r"
    using assms(1) by (simp add: sum_list_update)
  also have "\<dots> = sum_list (map sum_list t) + v"
    using assms by (simp add: sum_list_update_zero)
  finally show ?thesis by (simp add: assign_cell_def table_sum_def)
qed

lemma length_assign_col [simp]: "length (assign_col lo hi c v t) = length t"
  by (auto simp: assign_col_def)

lemma nth_assign_col:
  "r < length t \<Longrightarrow>
   assign_col lo hi c v t ! r = (if lo \<le> r \<and> r < hi then (t ! r)[c := v] else t ! r)"
  by (auto simp: assign_col_def nth_append min_def)

lemma length_assign_cell [simp]: "length (assign_cell r c v t) = length t"
  by (simp add: assign_cell_def)

lemma nth_assign_cell:
  "r' < length t \<Longrightarrow>
   assign_cell r c v t ! r' = (if r' = r then (t ! r)[c := v] else t ! r')"
  by (auto simp: assign_cell_def)

lemma shaped_nth: "shaped t \<longleftrightarrow> length t = MAX_LEVEL \<and> (\<forall>r<MAX_LEVEL. length (t ! r) = MAX_ANG)"
  by (auto simp: shaped_def list_all_length)

lemma col_zero_nth: "col_zero c t \<longleftrightarrow> (\<forall>r<length t. t ! r ! c = 0)"
  by (simp add: col_zero_def list_all_length)

lemma shaped_assign_col: "shaped t \<Longrightarrow> shaped (assign_col lo hi c v t)"
  by (simp add: shaped_nth nth_assign_col)

lemma shaped_assign_cell: "shaped t \<Longrightarrow> shaped (assign_cell r c v t)"
  by (simp add: shaped_nth nth_assign_cell)

lemma fill_angular_step:
  assumes "fits cfg" "a < MAX_ANG" "shaped t" "col_zero a t"
  shows "\<exists>t'. fill_angular cfg a t = Inr t' \<and> shaped t' \<and>
           table_sum t' = table_sum t + cfg ! a \<and>
           (\<forall>c. c \<noteq> a \<longrightarrow> col_zero c t \<longrightarrow> col_zero c t')"
proof (cases "cfg ! a = 0")
  case True
  with assms show ?thesis by (simp add: fill_angular_def fits_def)
next
  case False
  define cap where "cap = 2 + 4 * a"
  define q where "q = cfg ! a div cap"
  define t1 where "t1 = assign_col a (a + q) a cap t"
  have len: "length cfg = MAX_ANG" and bound: "cfg ! a \<le> cap * (MAX_LEVEL - a)"
    using assms(1,2) by (auto simp: fits_def list_all_iff cap_def)
  have cap0: "0 < cap" by (simp add: cap_def)
  have "q \<le> MAX_LEVEL - a"
    unfolding q_def using bound cap0
    by (metis div_le_mono nonzero_mult_div_cancel_left less_numeral_extra(3))
  hence qle: "a + q \<le> MAX_LEVEL" using assms(2) by (simp add: MAX_ANG_def MAX_LEVEL_def)
  have lt: "length t = MAX_LEVEL" and rows: "\<forall>r<MAX_LEVEL. length (t ! r) = MAX_ANG"
    using assms(3) by (simp_all add: shaped_nth)
  have pre: "list_all (\<lambda>row. a < length row \<and> row ! a = 0) t"
    using assms(2,4) lt rows by (simp add: list_all_length col_zero_nth)
  have sum1: "table_sum t1 = table_sum t + cap * q"
    using table_sum_assign_col[OF pre, of a "a + q" cap] qle lt by (simp add: t1_def min_def)
  have sh1: "shaped t1" using assms(3) by (simp add: t1_def shaped_assign_col)
  have oth1: "col_zero c t1" if "c \<noteq> a" "col_zero c t" for c
    using that by (simp add: col_zero_nth t1_def nth_assign_col)
  show ?thesis
  proof (cases "a + q < MAX_LEVEL")
    case True
    define t2 where "t2 = assign_cell (a + q) a (cfg ! a mod cap) t1"
    have cell0: "t1 ! (a + q) ! a = 0"
      using True assms(4) lt by (simp add: t1_def nth_assign_col col_zero_nth)
    have "length (t1 ! (a + q)) = MAX_ANG" using sh1 True by (simp add: shaped_nth)
    hence sum2: "table_sum t2 = table_sum t1 + cfg ! a mod cap"
      unfolding t2_def using True sh1 assms(2) cell0
      by (intro table_sum_assign_cell) (simp_all add: shaped_nth)
    have "fill_angular cfg a t = Inr t2"
      using False True len assms(2) qle
      by (simp add: fill_angular_def Let_def t2_def t1_def q_def cap_def)
    moreover have "shaped t2" using sh1 by (simp add: t2_def shaped_assign_cell)
    moreover have "table_sum t2 = table_sum t + cfg ! a"
      using sum1 sum2 by (simp add: q_def)
    moreover have "col_zero c t2" if "c \<noteq> a" "col_zero c t" for c
      using oth1[OF that] that(1) by (simp add: col_zero_nth t2_def nth_assign_cell)
    ultimately show ?thesis by blast
  next
    case F2: False
    hence qeq: "q = MAX_LEVEL - a" using qle by simp
    have "cap * q \<le> cfg ! a" unfolding q_def by simp
    hence "cfg ! a = cap * q" using bound qeq by simp
    moreover have "fill_angular cfg a t = Inr t1"
      using False F2 len assms(2) qle
      by (simp add: fill_angular_def Let_def t1_def q_def cap_def)
    ultimately show ?thesis using sh1 sum1 oth1 by auto
  qed
qed

lemma upt_MAX_ANG: "[0..<MAX_ANG] = [0, 1, 2, 3]"
  by (simp add: MAX_ANG_def upt_rec)

lemma shaped_zeros: "shaped (zeros MAX_LEVEL MAX_ANG)"
  by (simp add: shaped_def zeros_def list_all_length)

lemma col_zero_zeros: "c < MAX_ANG \<Longrightarrow> col_zero c (zeros MAX_LEVEL MAX_ANG)"
  by (simp add: col_zero_def zeros_def list_all_length)

lemma table_sum_zeros: "table_sum (zeros n m) = 0"
  by (simp add: table_sum_def zeros_def)

lemma sum_list_four: "length (cfg :: nat list) = 4 \<Longrightarrow> sum_list cfg = cfg ! 0 + cfg ! 1 + cfg ! 2 + cfg ! 3"
  by (auto simp: length_Suc_conv numeral_eq_Suc)

lemma fill_all_columns:
  assumes "fits cfg"
  shows "\<exists>t. for_each (fill_angular cfg) [0..<MAX_ANG] (zeros MAX_LEVEL MAX_ANG) = Inr t \<and>
           shaped t \<and> table_sum t = sum_list cfg"
proof -
  let ?z = "zeros MAX_LEVEL MAX_ANG"
  have a: "(0::nat) < MAX_ANG" "(1::nat) < MAX_ANG" "(2::nat) < MAX_ANG" "(3::nat) < MAX_ANG"
    by (simp_all add: MAX_ANG_def)
  obtain t0 where t0: "fill_angular cfg 0 ?z = Inr t0" "shaped t0" "table_sum t0 = cfg ! 0"
      "col_zero 1 t0" "col_zero 2 t0" "col_zero 3 t0"
    using fill_angular_step[OF assms a(1) shaped_zeros col_zero_zeros[OF a(1)]]
      col_zero_zeros[OF a(2)] col_zero_zeros[OF a(3)] col_zero_zeros[OF a(4)]
    by (auto simp: table_sum_zeros)
  obtain t1 where t1: "fill_angular cfg 1 t0 = Inr t1" "shaped t1"
      "table_sum t1 = cfg ! 0 + cfg ! 1" "col_zero 2 t1" "col_zero 3 t1"
    using fill_angular_step[OF assms a(2) t0(2) t0(4)] t0(3,5,6) by auto
  obtain t2 where t2: "fill_angular cfg 2 t1 = Inr t2" "shaped t2"
      "table_sum t2 = cfg ! 0 + cfg ! 1 + cfg ! 2" "col_zero 3 t2"
    using fill_angular_step[OF assms a(3) t1(2) t1(4)] t1(3,5) by auto
  obtain t3 where t3: "fill_angular cfg 3 t2 = Inr t3" "shaped t3"
      "table_sum t3 = cfg ! 0 + cfg ! 1 + cfg ! 2 + cfg ! 3"
    using fill_angular_step[OF assms a(4) t2(2) t2(4)] t2(3) by auto
  have "length cfg = 4" using assms by (simp add: fits_def MAX_ANG_def)
  hence "table_sum t3 = sum_list cfg" using t3(3) by (simp add: sum_list_four)
  moreover have "for_each (fill_angular cfg) [0..<MAX_ANG] ?z = Inr t3"
    using t0(1) t1(1) t2(1) t3(1) by (simp add: upt_MAX_ANG)
  ultimately show ?thesis using t3(2) by blast
qed

lemma wf_CONFIGURATION_row:
  "wf_CONFIGURATION CONFIGURATION \<Longrightarrow> element \<le> 118 \<Longrightarrow>
   fits (CONFIGURATION ! element) \<and> ElementConfiguration CONFIGURATION element = Inr element"
  by (simp add: wf_CONFIGURATION_def ElementConfiguration_def list_all_length)

text \<open>
  C7. For a library table that is well formed, and every element 0 to 118,
  \<^verbatim>\<open>get_configuration_table\<close> returns a table of seven rows and four columns whose cells add
  up to the electrons of the element's row of \<^verbatim>\<open>CONFIGURATION\<close>: filling the columns level
  by level, with the remainder in the next level, neither loses nor duplicates an electron.
\<close>

theorem configuration_table_total:
  assumes "wf_CONFIGURATION CONFIGURATION" "element \<le> 118"
  shows "\<exists>table. get_configuration_table CONFIGURATION element = Inr table \<and>
           length table = 7 \<and> list_all (\<lambda>row. length row = 4) table \<and>
           table_sum table = sum_list (CONFIGURATION ! element)"
proof -
  from wf_CONFIGURATION_row[OF assms]
  have f: "fits (CONFIGURATION ! element)"
    and e: "ElementConfiguration CONFIGURATION element = Inr element" by simp_all
  from fill_all_columns[OF f] e show ?thesis
    by (auto simp: get_configuration_table_def shaped_def MAX_LEVEL_def MAX_ANG_def)
qed

lemma wf_ground_state: "wf_CONFIGURATION ground_state_CONFIGURATION"
  by code_simp

theorem configuration_table_total_witness:
  "wf_CONFIGURATION ground_state_CONFIGURATION \<and> (26::nat) \<le> 118 \<and>
   (\<exists>table. get_configuration_table ground_state_CONFIGURATION 26 = Inr table \<and>
      length table = 7 \<and> list_all (\<lambda>row. length row = 4) table \<and> table_sum table = 26)"
proof -
  have s: "sum_list (ground_state_CONFIGURATION ! 26) = 26"
    by code_simp
  show ?thesis
    using configuration_table_total [OF wf_ground_state, of 26] wf_ground_state
    by (simp add: s)
qed

section \<open>The identity rule\<close>

lemma replicate_MAX_ANG: "replicate MAX_ANG x = [x, x, x, x]"
  by (simp add: MAX_ANG_def numeral_eq_Suc)

lemma active_angular_frozen_zero: "active_angular False (c, 0) t = Inr t"
  by (simp add: active_angular_def col_sum_def assign_col_def)

lemma get_active_table_no_levels:
  assumes "get_configuration_table CONFIGURATION element = Inr t"
  shows "get_active_table CONFIGURATION element (LevelList (replicate MAX_ANG 0)) False = Inr t"
  using assms unfolding replicate_MAX_ANG
  by (simp add: get_active_table_def py_min_def MAX_ANG_def active_angular_frozen_zero)

text \<open>
  C8. For a well-formed library table and every element 0 to 118, the identity rule
  \<^verbatim>\<open>"none"\<close> (\<open>FrozenRuleNone\<close>) gives \<^verbatim>\<open>get_num_core(element) == 0\<close>: it returns, and no
  electron is frozen.
\<close>

theorem none_rule_freezes_nothing:
  assumes "wf_CONFIGURATION CONFIGURATION" "element \<le> 118"
  shows "get_num_core CONFIGURATION (FrozenRuleNone CONFIGURATION) element = Inr 0"
proof -
  from wf_CONFIGURATION_row[OF assms]
  have f: "fits (CONFIGURATION ! element)"
    and e: "ElementConfiguration CONFIGURATION element = Inr element" by simp_all
  from fill_all_columns[OF f] e obtain t where t: "get_configuration_table CONFIGURATION element = Inr t"
    by (auto simp: get_configuration_table_def)
  have len: "length CONFIGURATION = 119" using assms(1) by (simp add: wf_CONFIGURATION_def)
  have row: "active_levels (FrozenRuleNone CONFIGURATION) ! element = replicate MAX_ANG 0"
    using assms(2) len by (simp add: FrozenRuleNone_def no_levels_def)
  show ?thesis
    using e t len assms(2) get_active_table_no_levels[OF t]
    by (simp add: get_num_core_def row get_num_core_electrons_def FrozenRuleNone_def no_levels_def)
qed

theorem none_rule_freezes_nothing_witness:
  "wf_CONFIGURATION ground_state_CONFIGURATION \<and> (79::nat) \<le> 118 \<and>
   get_num_core ground_state_CONFIGURATION (FrozenRuleNone ground_state_CONFIGURATION) 79 = Inr 0"
  using none_rule_freezes_nothing [OF wf_ground_state, of 79] wf_ground_state
  by simp

section \<open>The memoized mask and the index lists\<close>

lemma get_active_mask_reset: "get_active_mask CONFIGURATION (reset self) = get_active_mask CONFIGURATION self"
proof -
  have cs: "check_sanity (reset self) = check_sanity self"
    by (cases "fc_mo_energy self") (simp_all add: check_sanity_def reset_def)
  have f: "fc_mo_occ (reset self) = fc_mo_occ self" "fc_mo_energy (reset self) = fc_mo_energy self"
    "fc_rule (reset self) = fc_rule self" "fc_mol (reset self) = fc_mol self"
    "fc_ecp_only (reset self) = fc_ecp_only self"
    by (simp_all add: reset_def)
  show ?thesis
    unfolding get_active_mask_def cs f by (rule refl)
qed

text \<open>
  C9. Reading the property \<^verbatim>\<open>mask\<close> again on the object left by a first reading returns the
  same mask and leaves the object as it is, whatever its inputs; \<^verbatim>\<open>reset()\<close> clears the
  memoized mask, and the next reading is \<^verbatim>\<open>get_active_mask\<close> computed anew.
\<close>

theorem mask_memoized:
  "(mask_property CONFIGURATION self = (Inr m, self1) \<longrightarrow>
      mask_property CONFIGURATION self1 = (Inr m, self1)) \<and>
   fc_mask (reset self) = None \<and>
   fst (mask_property CONFIGURATION (reset self)) = get_active_mask CONFIGURATION self"
proof (intro conjI impI)
  assume a: "mask_property CONFIGURATION self = (Inr m, self1)"
  show "mask_property CONFIGURATION self1 = (Inr m, self1)"
  proof (cases "fc_mask self")
    case None
    with a have "self1 = self\<lparr>fc_mask := Some m\<rparr>"
      by (auto simp: mask_property_def split: sum.splits)
    then show ?thesis by (simp add: mask_property_def)
  next
    case (Some m')
    with a show ?thesis by (auto simp: mask_property_def)
  qed
next
  show "fc_mask (reset self) = None" by (simp add: reset_def)
next
  have "fc_mask (reset self) = None" by (simp add: reset_def)
  then show "fst (mask_property CONFIGURATION (reset self)) = get_active_mask CONFIGURATION self"
    by (simp add: mask_property_def get_active_mask_reset split: sum.splits)
qed

theorem mask_memoized_witness:
  "mask_property ground_state_CONFIGURATION
     (FrozenCore_init hydrogen_molecule (Array1 [2, 0]) (RuleList [0]) False None) =
     (Inr (Array1 [False, True]),
      (FrozenCore_init hydrogen_molecule (Array1 [2, 0]) (RuleList [0]) False None)
        \<lparr>fc_mask := Some (Array1 [False, True])\<rparr>) \<and>
   mask_property ground_state_CONFIGURATION
     ((FrozenCore_init hydrogen_molecule (Array1 [2, 0]) (RuleList [0]) False None)
        \<lparr>fc_mask := Some (Array1 [False, True])\<rparr>) =
     (Inr (Array1 [False, True]),
      (FrozenCore_init hydrogen_molecule (Array1 [2, 0]) (RuleList [0]) False None)
        \<lparr>fc_mask := Some (Array1 [False, True])\<rparr>)"
proof -
  let ?s = "FrozenCore_init hydrogen_molecule (Array1 [2, 0]) (RuleList [0]) False None"
  have m: "get_active_mask ground_state_CONFIGURATION ?s = Inr (Array1 [False, True])"
    by code_simp
  have h: "mask_property ground_state_CONFIGURATION ?s =
      (Inr (Array1 [False, True]), ?s\<lparr>fc_mask := Some (Array1 [False, True])\<rparr>)"
  proof -
    have "fc_mask ?s = None" by (simp add: FrozenCore_init_def)
    then show ?thesis by (simp add: mask_property_def m)
  qed
  from mask_memoized [of ground_state_CONFIGURATION ?s "Array1 [False, True]"
      "?s\<lparr>fc_mask := Some (Array1 [False, True])\<rparr>"] h
  show ?thesis by blast
qed

text \<open>
  C1. \<^verbatim>\<open>frozen()\<close> indexes \<^verbatim>\<open>np.arange(n)\<close> with the mask itself, not with its inverse:
  for two orbitals with the rule \<^verbatim>\<open>[0]\<close> the mask is \<^verbatim>\<open>[False, True]\<close> and the method returns
  the active index \<^verbatim>\<open>[1]\<close>, where its docstring ("Index of frozen core orbitals") promises
  \<^verbatim>\<open>[0]\<close>.
\<close>

theorem frozen_returns_active_indices:
  "fst (frozen ground_state_CONFIGURATION
          (FrozenCore_init hydrogen_molecule (Array1 [2, 0]) (RuleList [0]) False None)) =
     Inr (Index1 [1])"
  by code_simp

text \<open>
  C2. For five doubly occupied orbitals, two virtual ones and the rule \<^verbatim>\<open>(2, 0)\<close>,
  \<^verbatim>\<open>get_active_mask\<close> raises \<^verbatim>\<open>TypeError\<close>: the rule is a tuple, so
  \<^verbatim>\<open>isinstance(self.rule[0], "str")\<close> is evaluated.
\<close>

theorem tuple_rule_raises:
  "get_active_mask ground_state_CONFIGURATION
     (FrozenCore_init water_molecule (Array1 [2, 2, 2, 2, 2, 0, 0])
        (RuleTuple [ItemInt 2, ItemInt 0]) False None) = Inl TypeError"
  by code_simp

text \<open>
  C4. The rule \<^verbatim>\<open>np.array([0])\<close> does not take the branch of the index lists: it is resolved
  as a rule that freezes no electron and the mask is all true, while the list \<^verbatim>\<open>[0]\<close>
  freezes orbital 0.
\<close>

theorem array_rule_freezes_nothing:
  "get_active_mask ground_state_CONFIGURATION
     (FrozenCore_init hydrogen_molecule (Array1 [2, 0]) (RuleArray [0]) False None) =
     Inr (Array1 [True, True]) \<and>
   get_active_mask ground_state_CONFIGURATION
     (FrozenCore_init hydrogen_molecule (Array1 [2, 0]) (RuleList [0]) False None) =
     Inr (Array1 [False, True])"
  by code_simp

section \<open>The mask from frozen electron counts\<close>

lemma freeze_low_nth:
  assumes "j < nmo" "0 \<le> n_occ"
  shows "freeze_low nmo n_occ (replicate nmo True) ! j \<longleftrightarrow> n_occ \<le> int j"
proof -
  have k: "slice_stop nmo n_occ = min nmo (nat n_occ)"
    using assms(2) by (simp add: slice_stop_def)
  show ?thesis
  proof (cases "j < slice_stop nmo n_occ")
    case True
    then have "int j < n_occ" using k by (simp add: zless_nat_eq_int_zless)
    then show ?thesis using True by (simp add: freeze_low_def nth_append)
  next
    case False
    then have "n_occ \<le> int j" using k assms(1) by simp
    then show ?thesis using False assms(1) by (simp add: freeze_low_def nth_append)
  qed
qed

lemma freeze_low_length: "length (freeze_low nmo n_occ (replicate nmo True)) = nmo"
  by (simp add: freeze_low_def slice_stop_def)

lemma freeze_high_nth:
  assumes "j < nmo" "length row = nmo" "0 < n_vir"
  shows "freeze_high nmo n_vir row ! j \<longleftrightarrow> row ! j \<and> int j < int nmo - n_vir"
proof (cases "j < slice_start_from_end nmo n_vir")
  case True
  then have "int j < int nmo - n_vir" by (simp add: slice_start_from_end_def)
  then show ?thesis using True assms by (simp add: freeze_high_def nth_append)
next
  case False
  then have "\<not> int j < int nmo - n_vir" by (simp add: slice_start_from_end_def)
  then show ?thesis using False assms by (simp add: freeze_high_def nth_append slice_start_from_end_def)
qed

lemma freeze_high_length:
  assumes "length row = nmo" "0 < n_vir"
  shows "length (freeze_high nmo n_vir row) = nmo"
  using assms by (simp add: freeze_high_def slice_start_from_end_def)

text \<open>The row every occupation set gets, and what it holds.\<close>

lemma mask_row_nth:
  assumes "j < nmo" "0 \<le> n_occ"
  shows "(if 0 < n_vir then freeze_high nmo n_vir (freeze_low nmo n_occ (replicate nmo True))
          else freeze_low nmo n_occ (replicate nmo True)) ! j
         \<longleftrightarrow> n_occ \<le> int j \<and> (0 < n_vir \<longrightarrow> int j < int nmo - n_vir)"
  using assms
  by (simp add: freeze_high_nth freeze_low_length freeze_low_nth)

lemma mask_row_length:
  "length (if 0 < n_vir then freeze_high nmo n_vir (freeze_low nmo n_occ (replicate nmo True))
          else freeze_low nmo n_occ (replicate nmo True)) = nmo"
  by (simp add: freeze_high_length freeze_low_length)

lemma parse_active_mask_by_elec_cases:
  "parse_active_mask_by_elec mo_occ f_occ f_vir =
     (if concat mo_occ = []
      then Inl (ValueError ''zero-size array to reduction operation maximum which has no identity'')
      else if electrons_per_index mo_occ = 0 then Inl ZeroDivisionError
      else if \<not> (electrons_per_index mo_occ dvd f_occ \<and> electrons_per_index mo_occ dvd f_vir)
        then Inl (ValueError ''Could not partially freeze orbitals with several spins or half-frozen.'')
      else Inr (replicate (length mo_occ)
             (if 0 < f_vir div electrons_per_index mo_occ
              then freeze_high (last (shape (Array2 mo_occ))) (f_vir div electrons_per_index mo_occ)
                     (freeze_low (last (shape (Array2 mo_occ))) (f_occ div electrons_per_index mo_occ)
                        (replicate (last (shape (Array2 mo_occ))) True))
              else freeze_low (last (shape (Array2 mo_occ))) (f_occ div electrons_per_index mo_occ)
                        (replicate (last (shape (Array2 mo_occ))) True))))"
  unfolding parse_active_mask_by_elec_def electrons_per_index_def Let_def
  by (simp add: dvd_eq_mod_eq_0 del: shape.simps)

text \<open>
  C6. For an occupation array with an element, a positive largest occupation and frozen
  electron counts that are not negative, \<^verbatim>\<open>parse_active_mask_by_elec\<close> raises its validation
  error exactly when \<^verbatim>\<open>f_occ\<close> or \<^verbatim>\<open>f_vir\<close> is not a multiple of
  \<^verbatim>\<open>nset * orb_elec\<close>; when both are, it returns a mask of the shape of the array in which,
  in every occupation set, exactly the lowest \<^verbatim>\<open>n_occ_frz\<close> and the highest \<^verbatim>\<open>n_vir_frz\<close>
  orbitals are false.
\<close>

theorem parse_active_mask_by_elec_divisible:
  assumes "concat mo_occ \<noteq> []" and "0 < py_max (concat mo_occ)"
    and "0 \<le> f_occ" and "0 \<le> f_vir"
  shows "(parse_active_mask_by_elec mo_occ f_occ f_vir =
            Inl (ValueError ''Could not partially freeze orbitals with several spins or half-frozen.'')
          \<longleftrightarrow> \<not> (electrons_per_index mo_occ dvd f_occ \<and> electrons_per_index mo_occ dvd f_vir)) \<and>
         (electrons_per_index mo_occ dvd f_occ \<and> electrons_per_index mo_occ dvd f_vir \<longrightarrow>
            (\<exists>m. parse_active_mask_by_elec mo_occ f_occ f_vir = Inr m \<and>
                 length m = length mo_occ \<and>
                 (\<forall>c<length mo_occ.
                    length (m ! c) = last (shape (Array2 mo_occ)) \<and>
                    (\<forall>j<last (shape (Array2 mo_occ)).
                       m ! c ! j \<longleftrightarrow>
                         f_occ div electrons_per_index mo_occ \<le> int j \<and>
                         int j < int (last (shape (Array2 mo_occ))) - f_vir div electrons_per_index mo_occ))))"
proof -
  let ?K = "electrons_per_index mo_occ"
  let ?nmo = "last (shape (Array2 mo_occ))"
  have ne: "mo_occ \<noteq> []" using assms(1) by auto
  have K: "0 < ?K" using assms(2) ne by (simp add: electrons_per_index_def)
  have nocc: "0 \<le> f_occ div ?K" using assms(3) K by (simp add: pos_imp_zdiv_nonneg_iff)
  have nvir: "0 \<le> f_vir div ?K" using assms(4) K by (simp add: pos_imp_zdiv_nonneg_iff)
  have first: "parse_active_mask_by_elec mo_occ f_occ f_vir =
            Inl (ValueError ''Could not partially freeze orbitals with several spins or half-frozen.'')
          \<longleftrightarrow> \<not> (?K dvd f_occ \<and> ?K dvd f_vir)"
    using assms(1) K by (auto simp: parse_active_mask_by_elec_cases simp del: shape.simps)
  have second: "\<exists>m. parse_active_mask_by_elec mo_occ f_occ f_vir = Inr m \<and>
                 length m = length mo_occ \<and>
                 (\<forall>c<length mo_occ.
                    length (m ! c) = ?nmo \<and>
                    (\<forall>j<?nmo. m ! c ! j \<longleftrightarrow> f_occ div ?K \<le> int j \<and> int j < int ?nmo - f_vir div ?K))"
    if d: "?K dvd f_occ \<and> ?K dvd f_vir"
  proof -
    let ?row = "if 0 < f_vir div ?K
              then freeze_high ?nmo (f_vir div ?K) (freeze_low ?nmo (f_occ div ?K) (replicate ?nmo True))
              else freeze_low ?nmo (f_occ div ?K) (replicate ?nmo True)"
    have r: "parse_active_mask_by_elec mo_occ f_occ f_vir = Inr (replicate (length mo_occ) ?row)"
      using assms(1) K d by (simp add: parse_active_mask_by_elec_cases del: shape.simps)
    have cell: "?row ! j \<longleftrightarrow> f_occ div ?K \<le> int j \<and> int j < int ?nmo - f_vir div ?K" if "j < ?nmo" for j
    proof -
      have "?row ! j \<longleftrightarrow> f_occ div ?K \<le> int j \<and> (0 < f_vir div ?K \<longrightarrow> int j < int ?nmo - f_vir div ?K)"
        by (rule mask_row_nth[OF that nocc])
      moreover have "int j < int ?nmo - f_vir div ?K" if "\<not> 0 < f_vir div ?K"
        using that nvir \<open>j < ?nmo\<close> by linarith
      ultimately show ?thesis by blast
    qed
    have len: "length ?row = ?nmo" by (rule mask_row_length)
    show ?thesis
      unfolding r using cell len by (intro exI[of _ "replicate (length mo_occ) ?row"]) simp
  qed
  from first second show ?thesis by blast
qed

theorem parse_active_mask_by_elec_divisible_witness:
  "(concat [[1, 1, 1, 0], [1, 1, 0, 0::int]] \<noteq> [] \<and>
    0 < py_max (concat [[1, 1, 1, 0], [1, 1, 0, 0::int]]) \<and> (0::int) \<le> 2 \<and> (0::int) \<le> 4) \<and>
   (electrons_per_index [[1, 1, 1, 0], [1, 1, 0, 0]] dvd 2 \<and>
    electrons_per_index [[1, 1, 1, 0], [1, 1, 0, 0]] dvd 4) \<and>
   parse_active_mask_by_elec [[1, 1, 1, 0], [1, 1, 0, 0]] 2 4 \<noteq>
     Inl (ValueError ''Could not partially freeze orbitals with several spins or half-frozen.'') \<and>
   (\<exists>m. parse_active_mask_by_elec [[1, 1, 1, 0], [1, 1, 0, 0]] 2 4 = Inr m \<and>
        length m = length [[1, 1, 1, 0], [1, 1, 0, 0::int]] \<and>
        length (m ! 1) = last (shape (Array2 [[1, 1, 1, 0], [1, 1, 0, 0::int]])) \<and>
        \<not> m ! 1 ! 0 \<and> m ! 1 ! 1 \<and> \<not> m ! 1 ! 2 \<and> \<not> m ! 1 ! 3)"
proof -
  have h: "concat [[1, 1, 1, 0], [1, 1, 0, 0::int]] \<noteq> []"
    "0 < py_max (concat [[1, 1, 1, 0], [1, 1, 0, 0::int]])" "(0::int) \<le> 2" "(0::int) \<le> 4"
    by (simp_all add: py_max_def)
  have e: "electrons_per_index [[1, 1, 1, 0], [1, 1, 0, 0]] = 2"
    by (simp add: electrons_per_index_def py_max_def)
  have k: "electrons_per_index [[1, 1, 1, 0], [1, 1, 0, 0]] dvd 2"
    "electrons_per_index [[1, 1, 1, 0], [1, 1, 0, 0]] dvd 4"
    by (simp_all add: e)
  from parse_active_mask_by_elec_divisible [OF h] k
  obtain m where m: "parse_active_mask_by_elec [[1, 1, 1, 0], [1, 1, 0, 0]] 2 4 = Inr m"
    "length m = length [[1, 1, 1, 0], [1, 1, 0, 0::int]]"
    "\<forall>c<length [[1, 1, 1, 0], [1, 1, 0, 0::int]].
       length (m ! c) = last (shape (Array2 [[1, 1, 1, 0], [1, 1, 0, 0::int]])) \<and>
       (\<forall>j<last (shape (Array2 [[1, 1, 1, 0], [1, 1, 0, 0::int]])).
          m ! c ! j \<longleftrightarrow>
            2 div electrons_per_index [[1, 1, 1, 0], [1, 1, 0, 0]] \<le> int j \<and>
            int j < int (last (shape (Array2 [[1, 1, 1, 0], [1, 1, 0, 0::int]])))
                      - 4 div electrons_per_index [[1, 1, 1, 0], [1, 1, 0, 0]])"
    by blast
  from m(3) have row: "length (m ! 1) = 4" "\<forall>j<4. m ! 1 ! j \<longleftrightarrow> 1 \<le> int j \<and> int j < 2"
    by (simp_all add: e)
  from row(2) have cells: "\<not> m ! 1 ! 0" "m ! 1 ! 1" "\<not> m ! 1 ! 2" "\<not> m ! 1 ! 3"
    by simp_all
  from parse_active_mask_by_elec_divisible [OF h] k
  have ne: "parse_active_mask_by_elec [[1, 1, 1, 0], [1, 1, 0, 0]] 2 4 \<noteq>
     Inl (ValueError ''Could not partially freeze orbitals with several spins or half-frozen.'')"
    by blast
  show ?thesis
    using h k ne m(1,2) row(1) cells by (intro conjI exI[of _ m]) simp_all
qed

text \<open>
  C10. When \<^verbatim>\<open>parse_active_mask_by_elec\<close> returns a mask with \<^verbatim>\<open>n_vir_frz == 0\<close> (and
  \<^verbatim>\<open>n_occ_frz\<close> not negative), no orbital is frozen from the high end: in every occupation set
  every entry from column \<^verbatim>\<open>n_occ_frz\<close> to the last one is true. The guard
  \<^verbatim>\<open>if n_vir_frz > 0\<close> keeps \<^verbatim>\<open>mask[:, -0:]\<close> from being assigned.
\<close>

theorem no_frozen_virtuals:
  assumes "parse_active_mask_by_elec mo_occ f_occ f_vir = Inr m"
    and "f_vir div electrons_per_index mo_occ = 0"
    and "0 \<le> f_occ div electrons_per_index mo_occ"
  shows "length m = length mo_occ \<and>
         (\<forall>c<length mo_occ.
            length (m ! c) = last (shape (Array2 mo_occ)) \<and>
            (\<forall>j<last (shape (Array2 mo_occ)).
               f_occ div electrons_per_index mo_occ \<le> int j \<longrightarrow> m ! c ! j))"
proof -
  let ?K = "electrons_per_index mo_occ"
  let ?nmo = "last (shape (Array2 mo_occ))"
  let ?row = "freeze_low ?nmo (f_occ div ?K) (replicate ?nmo True)"
  have m: "m = replicate (length mo_occ) ?row"
    using assms(1,2)
    by (simp add: parse_active_mask_by_elec_cases del: shape.simps split: if_splits)
  have "?row ! j" if "j < ?nmo" "f_occ div ?K \<le> int j" for j
    using freeze_low_nth[OF that(1) assms(3)] that(2) by simp
  then show ?thesis
    unfolding m by (simp add: freeze_low_length del: shape.simps)
qed

theorem no_frozen_virtuals_witness:
  "parse_active_mask_by_elec [[2, 2, 2, 2, 2, 0, 0]] 2 0 =
     Inr [[False, True, True, True, True, True, True]] \<and>
   (0::int) div electrons_per_index [[2, 2, 2, 2, 2, 0, 0]] = 0 \<and>
   0 \<le> (2::int) div electrons_per_index [[2, 2, 2, 2, 2, 0, 0]] \<and>
   length [[False, True, True, True, True, True, True]] = length [[2, 2, 2, 2, 2, 0, 0::int]] \<and>
   length ([[False, True, True, True, True, True, True]] ! 0) =
     last (shape (Array2 [[2, 2, 2, 2, 2, 0, 0::int]])) \<and>
   [[False, True, True, True, True, True, True]] ! 0 ! 1 \<and>
   [[False, True, True, True, True, True, True]] ! 0 ! 6"
proof -
  have r: "parse_active_mask_by_elec [[2, 2, 2, 2, 2, 0, 0]] 2 0 =
     Inr [[False, True, True, True, True, True, True]]"
    by code_simp
  have k: "electrons_per_index [[2, 2, 2, 2, 2, 0, 0]] = 2"
    by (simp add: electrons_per_index_def py_max_def)
  have h: "(0::int) div electrons_per_index [[2, 2, 2, 2, 2, 0, 0]] = 0"
    "0 \<le> (2::int) div electrons_per_index [[2, 2, 2, 2, 2, 0, 0]]"
    by (simp_all add: k)
  from no_frozen_virtuals [OF r h]
  have a: "length [[False, True, True, True, True, True, True]] = length [[2, 2, 2, 2, 2, 0, 0::int]]"
    and b: "\<forall>c<length [[2, 2, 2, 2, 2, 0, 0::int]].
      length ([[False, True, True, True, True, True, True]] ! c) =
        last (shape (Array2 [[2, 2, 2, 2, 2, 0, 0::int]])) \<and>
      (\<forall>j<last (shape (Array2 [[2, 2, 2, 2, 2, 0, 0::int]])).
         2 div electrons_per_index [[2, 2, 2, 2, 2, 0, 0]] \<le> int j \<longrightarrow>
         [[False, True, True, True, True, True, True]] ! c ! j)"
    by blast+
  show ?thesis
    using r h a b by simp
qed

section \<open>Atoms with an effective core potential\<close>

lemma parse_atom_rule_value:
  "parse_atom CONFIGURATION rule ecp_only atom acc =
     (case rule_value CONFIGURATION rule (snd atom) of
        Inl e \<Rightarrow> Inl e
      | Inr v \<Rightarrow> Inr (fst acc + finalize_atom ecp_only (fst atom) (snd atom) (fst v), snd acc + snd v))"
  by (simp add: parse_atom_def rule_value_def Let_def split: sum.splits)

lemma for_each_parse_atom:
  assumes "for_each (parse_atom CONFIGURATION rule ecp_only) ats acc = Inr res"
  shows "\<exists>vals. length vals = length ats \<and>
           (\<forall>i<length ats. rule_value CONFIGURATION rule (snd (ats ! i)) = Inr (vals ! i)) \<and>
           fst res = fst acc + sum_list (map (\<lambda>i. finalize_atom ecp_only (fst (ats ! i)) (snd (ats ! i))
                                      (fst (vals ! i))) [0..<length ats]) \<and>
           snd res = snd acc + sum_list (map snd vals)"
  using assms
proof (induction ats arbitrary: acc)
  case Nil
  then show ?case by simp
next
  case (Cons a ats)
  obtain v where v: "rule_value CONFIGURATION rule (snd a) = Inr v"
    and rest: "for_each (parse_atom CONFIGURATION rule ecp_only) ats
                 (fst acc + finalize_atom ecp_only (fst a) (snd a) (fst v), snd acc + snd v) = Inr res"
  proof (cases "rule_value CONFIGURATION rule (snd a)")
    case (Inl e)
    then have "parse_atom CONFIGURATION rule ecp_only a acc = Inl e"
      by (simp add: parse_atom_rule_value)
    with Cons.prems show ?thesis by simp
  next
    case (Inr v)
    then have "parse_atom CONFIGURATION rule ecp_only a acc =
        Inr (fst acc + finalize_atom ecp_only (fst a) (snd a) (fst v), snd acc + snd v)"
      by (simp add: parse_atom_rule_value)
    with Cons.prems Inr that show ?thesis by simp
  qed
  from Cons.IH[OF rest] obtain vals where vals: "length vals = length ats"
    "\<forall>i<length ats. rule_value CONFIGURATION rule (snd (ats ! i)) = Inr (vals ! i)"
    "fst res = fst acc + finalize_atom ecp_only (fst a) (snd a) (fst v)
        + sum_list (map (\<lambda>i. finalize_atom ecp_only (fst (ats ! i)) (snd (ats ! i)) (fst (vals ! i))) [0..<length ats])"
    "snd res = snd acc + snd v + sum_list (map snd vals)"
    by auto
  have shift: "map (\<lambda>i. finalize_atom ecp_only (fst ((a # ats) ! i)) (snd ((a # ats) ! i)) (fst ((v # vals) ! i)))
                 [0..<length (a # ats)]
        = finalize_atom ecp_only (fst a) (snd a) (fst v)
          # map (\<lambda>i. finalize_atom ecp_only (fst (ats ! i)) (snd (ats ! i)) (fst (vals ! i))) [0..<length ats]"
    by (simp add: upt_conv_Cons map_Suc_upt[symmetric] del: upt_Suc)
  show ?case
  proof (intro exI[of _ "v # vals"] conjI)
    show "length (v # vals) = length (a # ats)" using vals(1) by simp
    show "\<forall>i<length (a # ats). rule_value CONFIGURATION rule (snd ((a # ats) ! i)) = Inr ((v # vals) ! i)"
      using v vals(2) by (auto simp: nth_Cons split: nat.splits)
    show "fst res = fst acc + sum_list (map (\<lambda>i. finalize_atom ecp_only (fst ((a # ats) ! i))
              (snd ((a # ats) ! i)) (fst ((v # vals) ! i))) [0..<length (a # ats)])"
      unfolding shift using vals(3) by simp
    show "snd res = snd acc + sum_list (map snd (v # vals))" using vals(4) by simp
  qed
qed

lemma finalize_atom_ecp:
  assumes "nelec \<noteq> int nchrg"
  shows "finalize_atom ecp_only nelec nchrg v =
           (if ecp_only then 0 else v - min v (int nchrg - nelec))"
    and "0 \<le> finalize_atom ecp_only nelec nchrg v"
  using assms by (simp_all add: finalize_atom_def)

text \<open>
  C5. When \<^verbatim>\<open>parse_frozen_numbers\<close> resolves a rule atom by atom (the rule is neither
  \<^verbatim>\<open>None\<close> nor a tuple) and returns, every atom's rule resolved to a pair, \<^verbatim>\<open>f_occ\<close> is
  the sum over the atoms of the finalized values and \<^verbatim>\<open>f_vir\<close> the sum of the virtual
  values; an atom with an effective core potential (\<^verbatim>\<open>nelec != nchrg\<close>) adds nothing when
  \<^verbatim>\<open>ecp_only\<close> is true, and otherwise its rule value less
  \<^verbatim>\<open>min(f_occ_atom, nchrg - nelec)\<close>, which is never negative.
\<close>

theorem ecp_atoms_in_parse_frozen_numbers:
  assumes "parse_frozen_numbers CONFIGURATION mol rule ecp_only = Inr (f_occ, f_vir)"
    and "rule \<noteq> RuleNone" and "\<And>items. rule \<noteq> RuleTuple items"
  shows "\<exists>vals. length vals = length (atoms mol) \<and>
           (\<forall>i<length (atoms mol).
              rule_value CONFIGURATION rule (snd (atoms mol ! i)) = Inr (vals ! i)) \<and>
           f_occ = sum_list (map (\<lambda>i. finalize_atom ecp_only (fst (atoms mol ! i))
                                         (snd (atoms mol ! i)) (fst (vals ! i)))
                               [0..<length (atoms mol)]) \<and>
           f_vir = sum_list (map snd vals) \<and>
           (\<forall>i<length (atoms mol).
              fst (atoms mol ! i) \<noteq> int (snd (atoms mol ! i)) \<longrightarrow>
                finalize_atom ecp_only (fst (atoms mol ! i)) (snd (atoms mol ! i)) (fst (vals ! i)) =
                  (if ecp_only then 0
                   else fst (vals ! i)
                          - min (fst (vals ! i)) (int (snd (atoms mol ! i)) - fst (atoms mol ! i))) \<and>
                0 \<le> finalize_atom ecp_only (fst (atoms mol ! i)) (snd (atoms mol ! i)) (fst (vals ! i)))"
proof -
  have loop: "for_each (parse_atom CONFIGURATION rule ecp_only) (atoms mol) (0, 0) = Inr (f_occ, f_vir)"
    using assms(1,2) assms(3)[of "case rule of RuleTuple items \<Rightarrow> items | _ \<Rightarrow> []"]
    by (cases rule) (simp_all add: parse_frozen_numbers_def)
  from for_each_parse_atom[OF loop] obtain vals where
    "length vals = length (atoms mol)"
    "\<forall>i<length (atoms mol). rule_value CONFIGURATION rule (snd (atoms mol ! i)) = Inr (vals ! i)"
    "f_occ = sum_list (map (\<lambda>i. finalize_atom ecp_only (fst (atoms mol ! i))
                                         (snd (atoms mol ! i)) (fst (vals ! i)))
                               [0..<length (atoms mol)])"
    "f_vir = sum_list (map snd vals)"
    by auto
  then show ?thesis
    by (intro exI[of _ vals]) (simp add: finalize_atom_ecp)
qed

theorem ecp_atoms_in_parse_frozen_numbers_witness:
  "parse_frozen_numbers ground_state_CONFIGURATION iodine_compound
     (RuleStr ''FreezeNobleGasCore'') False = Inr (10, 0) \<and>
   RuleStr ''FreezeNobleGasCore'' \<noteq> RuleNone \<and>
   (\<exists>vals. length vals = length (atoms iodine_compound) \<and>
      rule_value ground_state_CONFIGURATION (RuleStr ''FreezeNobleGasCore'')
        (snd (atoms iodine_compound ! 0)) = Inr (vals ! 0) \<and>
      (10::int) = sum_list (map (\<lambda>i. finalize_atom False (fst (atoms iodine_compound ! i))
                                    (snd (atoms iodine_compound ! i)) (fst (vals ! i)))
                          [0..<length (atoms iodine_compound)]) \<and>
      finalize_atom False (fst (atoms iodine_compound ! 0)) (snd (atoms iodine_compound ! 0))
          (fst (vals ! 0)) =
        fst (vals ! 0) - min (fst (vals ! 0))
                           (int (snd (atoms iodine_compound ! 0)) - fst (atoms iodine_compound ! 0)) \<and>
      0 \<le> finalize_atom False (fst (atoms iodine_compound ! 0))
             (snd (atoms iodine_compound ! 0)) (fst (vals ! 0)))"
proof -
  have r: "parse_frozen_numbers ground_state_CONFIGURATION iodine_compound
     (RuleStr ''FreezeNobleGasCore'') False = Inr (10, 0)"
    by code_simp
  have n: "RuleStr ''FreezeNobleGasCore'' \<noteq> RuleNone"
    "\<And>items. RuleStr ''FreezeNobleGasCore'' \<noteq> RuleTuple items"
    by simp_all
  have ecp: "0 < length (atoms iodine_compound)"
    "fst (atoms iodine_compound ! 0) \<noteq> int (snd (atoms iodine_compound ! 0))"
    by (simp_all add: iodine_compound_def)
  from ecp_atoms_in_parse_frozen_numbers [OF r n] obtain vals where
    v: "length vals = length (atoms iodine_compound)"
      "\<forall>i<length (atoms iodine_compound).
         rule_value ground_state_CONFIGURATION (RuleStr ''FreezeNobleGasCore'')
           (snd (atoms iodine_compound ! i)) = Inr (vals ! i)"
      "(10::int) = sum_list (map (\<lambda>i. finalize_atom False (fst (atoms iodine_compound ! i))
                                    (snd (atoms iodine_compound ! i)) (fst (vals ! i)))
                          [0..<length (atoms iodine_compound)])"
      "\<forall>i<length (atoms iodine_compound).
         fst (atoms iodine_compound ! i) \<noteq> int (snd (atoms iodine_compound ! i)) \<longrightarrow>
           finalize_atom False (fst (atoms iodine_compound ! i)) (snd (atoms iodine_compound ! i))
               (fst (vals ! i)) =
             (if False then 0
              else fst (vals ! i) - min (fst (vals ! i))
                     (int (snd (atoms iodine_compound ! i)) - fst (atoms iodine_compound ! i))) \<and>
           0 \<le> finalize_atom False (fst (atoms iodine_compound ! i))
                  (snd (atoms iodine_compound ! i)) (fst (vals ! i))"
    by blast
  from v(2) ecp(1) have v0: "rule_value ground_state_CONFIGURATION (RuleStr ''FreezeNobleGasCore'')
        (snd (atoms iodine_compound ! 0)) = Inr (vals ! 0)" by blast
  from v(4) ecp have f0: "finalize_atom False (fst (atoms iodine_compound ! 0)) (snd (atoms iodine_compound ! 0))
          (fst (vals ! 0)) =
        fst (vals ! 0) - min (fst (vals ! 0))
                           (int (snd (atoms iodine_compound ! 0)) - fst (atoms iodine_compound ! 0))"
      "0 \<le> finalize_atom False (fst (atoms iodine_compound ! 0))
             (snd (atoms iodine_compound ! 0)) (fst (vals ! 0))"
    by auto
  show ?thesis
    using r n(1) v(1) v0 v(3) f0 by (intro conjI exI[of _ vals])
qed

lemma argon_core_potential_covers_rule: "parse_frozen_numbers ground_state_CONFIGURATION \<lparr>atoms = [(8, 18)], nelectron = 8\<rparr>
     (RuleStr ''FreezeNobleGasCore'') False = Inr (0, 0)"
  by code_simp

lemma iodine_ecp_only: "parse_frozen_numbers ground_state_CONFIGURATION iodine_compound
     (RuleStr ''FreezeNobleGasCore'') True = Inr (2, 0)"
  by code_simp

section \<open>The active branch of the active table\<close>

lemma py_max_Max: "xs \<noteq> [] \<Longrightarrow> py_max xs = Max (set xs)"
  by (cases xs) (simp_all add: py_max_def Max.set_eq_fold[symmetric])

lemma shaped_fill_angular: "fill_angular cfg a t = Inr t' \<Longrightarrow> shaped t \<Longrightarrow> shaped t'"
  by (auto simp: fill_angular_def Let_def shaped_assign_col shaped_assign_cell split: if_splits)

lemma shaped_for_each_fill:
  "for_each (fill_angular cfg) as t = Inr t' \<Longrightarrow> shaped t \<Longrightarrow> shaped t'"
proof (induction as arbitrary: t)
  case Nil
  then show ?case by simp
next
  case (Cons a as)
  then show ?case
    by (cases "fill_angular cfg a t") (auto dest: shaped_fill_angular)
qed

lemma shaped_get_configuration_table:
  "get_configuration_table CONFIGURATION element = Inr table \<Longrightarrow> shaped table"
  by (auto simp: get_configuration_table_def split: sum.splits
      dest: shaped_for_each_fill[OF _ shaped_zeros])

lemma active_angular_step:
  assumes "non_empty_level t \<noteq> []"
  shows "active_angular True (c, N) t =
     (if incomplete_shell t c (s_cut t N)
      then Inl (ValueError ''Possibly active orbital electrons are frozen by current setting.'')
      else Inr (zero_below c (s_cut t N) t))"
  using assms
  by (simp add: active_angular_def Let_def s_cut_def zero_below_def incomplete_shell_def)

lemma active_angular_empty:
  assumes "non_empty_level t = []"
  shows "active_angular True p t = Inr t"
  using assms by (simp add: active_angular_def Let_def)

lemma shaped_zero_below: "shaped t \<Longrightarrow> shaped (zero_below c fl t)"
  by (simp add: zero_below_def shaped_assign_col)

lemma nth_zero_below:
  assumes "shaped t" "r < MAX_LEVEL" "c' < MAX_ANG" "c < MAX_ANG"
  shows "zero_below c fl t ! r ! c' = (if c' = c \<and> int r < fl then 0 else t ! r ! c')"
proof -
  have l: "length t = MAX_LEVEL" "length (t ! r) = MAX_ANG"
    using assms(1,2) by (simp_all add: shaped_nth)
  show ?thesis
  proof (cases "fl \<le> 0")
    case True
    then show ?thesis by (simp add: zero_below_def)
  next
    case False
    then have "r < nat fl \<longleftrightarrow> int r < fl" by linarith
    then show ?thesis
      using False l assms(2,3,4) by (simp add: zero_below_def nth_assign_col nth_list_update)
  qed
qed

lemma col_sum_cong:
  assumes "length t = length t'" "\<forall>r<length t. t ! r ! c = t' ! r ! c"
  shows "col_sum k c t = col_sum k c t'"
proof -
  have "map (\<lambda>row. row ! c) (take k t) = map (\<lambda>row. row ! c) (take k t')"
    using assms by (intro nth_equalityI) simp_all
  then show ?thesis by (simp add: col_sum_def)
qed

lemma col_sum_zero_below:
  assumes "shaped t" "c' \<noteq> c" "c' < MAX_ANG" "c < MAX_ANG"
  shows "col_sum k c' (zero_below c fl t) = col_sum k c' t"
proof (rule col_sum_cong)
  show "length (zero_below c fl t) = length t" by (simp add: zero_below_def)
  show "\<forall>r<length (zero_below c fl t). zero_below c fl t ! r ! c' = t ! r ! c'"
  proof (intro allI impI)
    fix r assume "r < length (zero_below c fl t)"
    then have "r < MAX_LEVEL" using assms(1) by (simp add: zero_below_def shaped_nth split: if_splits)
    from nth_zero_below[OF assms(1) this assms(3,4)] assms(2)
    show "zero_below c fl t ! r ! c' = t ! r ! c'" by simp
  qed
qed

lemma non_empty_level_other_column:
  assumes "shaped t" "c \<noteq> 0" "c < MAX_ANG"
  shows "non_empty_level (zero_below c fl t) = non_empty_level t"
  unfolding non_empty_level_def
proof (rule filter_cong[OF refl])
  fix i assume "i \<in> set [0..<MAX_LEVEL]"
  then have i: "i < MAX_LEVEL" by simp
  have "(0::nat) < MAX_ANG" by (simp add: MAX_ANG_def)
  from nth_zero_below[OF assms(1) i this assms(3)] assms(2)
  show "(0 < zero_below c fl t ! i ! 0) = (0 < t ! i ! 0)" by simp
qed

lemma set_non_empty_level: "set (non_empty_level t) = {i. i < MAX_LEVEL \<and> 0 < t ! i ! 0}"
  by (auto simp: non_empty_level_def)

lemma non_empty_level_s_column:
  assumes "shaped t" "non_empty_level t \<noteq> []" "fl \<le> int (py_max (non_empty_level t))"
  shows "non_empty_level (zero_below 0 fl t) \<noteq> [] \<and>
         py_max (non_empty_level (zero_below 0 fl t)) = py_max (non_empty_level t)"
proof -
  let ?h = "py_max (non_empty_level t)"
  let ?t' = "zero_below 0 fl t"
  have a0: "(0::nat) < MAX_ANG" by (simp add: MAX_ANG_def)
  have hm: "?h = Max (set (non_empty_level t))" using assms(2) by (rule py_max_Max)
  have hin: "?h \<in> set (non_empty_level t)" unfolding hm using assms(2) by (intro Max_in) simp_all
  have hle: "i \<le> ?h" if "i \<in> set (non_empty_level t)" for i
    unfolding hm using that by (intro Max_ge) simp_all
  have cell: "?t' ! i ! 0 = (if int i < fl then 0 else t ! i ! 0)" if "i < MAX_LEVEL" for i
    using nth_zero_below[OF assms(1) that a0 a0] by simp
  have s: "set (non_empty_level ?t') = {i \<in> set (non_empty_level t). fl \<le> int i}"
    by (auto simp: set_non_empty_level cell split: if_splits)
  have hin': "?h \<in> set (non_empty_level ?t')" unfolding s using hin assms(3) by simp
  then have ne: "non_empty_level ?t' \<noteq> []" by auto
  have "Max (set (non_empty_level ?t')) = ?h"
  proof (rule Max_eqI)
    show "finite (set (non_empty_level ?t'))" by simp
    show "y \<le> ?h" if "y \<in> set (non_empty_level ?t')" for y
      using that hle unfolding s by simp
    show "?h \<in> set (non_empty_level ?t')" by (rule hin')
  qed
  then show ?thesis using ne by (simp add: py_max_Max)
qed

lemma four_levels:
  assumes "length (level :: int list) = 4"
  obtains a0 a1 a2 a3 where "level = [a0, a1, a2, a3]"
  using assms by (auto simp: length_Suc_conv numeral_eq_Suc)

lemma s_cut_cong:
  "py_max (non_empty_level t) = py_max (non_empty_level t') \<Longrightarrow> s_cut t N = s_cut t' N"
  by (simp add: s_cut_def)

lemma active_levels_chain:
  assumes sh: "shaped t0" and ne: "non_empty_level t0 \<noteq> []" and a0: "1 \<le> a0"
  defines "VE \<equiv> ValueError ''Possibly active orbital electrons are frozen by current setting.''"
  shows "for_each (active_angular True) [(0, a0), (1, a1), (2, a2), (3, a3)] t0 =
     (if incomplete_shell t0 0 (s_cut t0 a0) \<or> incomplete_shell t0 1 (s_cut t0 a1) \<or>
         incomplete_shell t0 2 (s_cut t0 a2) \<or> incomplete_shell t0 3 (s_cut t0 a3)
      then Inl VE
      else Inr (zero_below 3 (s_cut t0 a3) (zero_below 2 (s_cut t0 a2)
                 (zero_below 1 (s_cut t0 a1) (zero_below 0 (s_cut t0 a0) t0)))))"
proof -
  let ?t1 = "zero_below 0 (s_cut t0 a0) t0"
  let ?t2 = "zero_below 1 (s_cut t0 a1) ?t1"
  let ?t3 = "zero_below 2 (s_cut t0 a2) ?t2"
  have c: "(0::nat) < MAX_ANG" "(1::nat) < MAX_ANG" "(2::nat) < MAX_ANG" "(3::nat) < MAX_ANG"
    by (simp_all add: MAX_ANG_def)
  have le: "s_cut t0 a0 \<le> int (py_max (non_empty_level t0))"
    using a0 by (simp add: s_cut_def)
  have sh1: "shaped ?t1" using sh by (rule shaped_zero_below)
  have sh2: "shaped ?t2" using sh1 by (rule shaped_zero_below)
  have sh3: "shaped ?t3" using sh2 by (rule shaped_zero_below)
  from non_empty_level_s_column[OF sh ne le]
  have ne1: "non_empty_level ?t1 \<noteq> []" and h1: "py_max (non_empty_level ?t1) = py_max (non_empty_level t0)"
    by simp_all
  have n2: "non_empty_level ?t2 = non_empty_level ?t1"
    by (rule non_empty_level_other_column[OF sh1 _ c(2)]) simp
  have n3: "non_empty_level ?t3 = non_empty_level ?t2"
    by (rule non_empty_level_other_column[OF sh2 _ c(3)]) simp
  have h2: "py_max (non_empty_level ?t2) = py_max (non_empty_level t0)"
    unfolding n2 by (rule h1)
  have h3: "py_max (non_empty_level ?t3) = py_max (non_empty_level t0)"
    unfolding n3 by (rule h2)
  have cut1: "s_cut ?t1 N = s_cut t0 N" for N by (rule s_cut_cong[OF h1])
  have cut2: "s_cut ?t2 N = s_cut t0 N" for N by (rule s_cut_cong[OF h2])
  have cut3: "s_cut ?t3 N = s_cut t0 N" for N by (rule s_cut_cong[OF h3])
  have ne2: "non_empty_level ?t2 \<noteq> []" unfolding n2 by (rule ne1)
  have ne3: "non_empty_level ?t3 \<noteq> []" unfolding n3 by (rule ne2)
  have cs1: "col_sum k 1 ?t1 = col_sum k 1 t0" for k
    by (rule col_sum_zero_below[OF sh _ c(2) c(1)]) simp
  have cs2: "col_sum k 2 ?t2 = col_sum k 2 t0" for k
  proof -
    have "col_sum k 2 ?t2 = col_sum k 2 ?t1"
      by (rule col_sum_zero_below[OF sh1 _ c(3) c(2)]) simp
    also have "\<dots> = col_sum k 2 t0"
      by (rule col_sum_zero_below[OF sh _ c(3) c(1)]) simp
    finally show ?thesis .
  qed
  have cs3: "col_sum k 3 ?t3 = col_sum k 3 t0" for k
  proof -
    have "col_sum k 3 ?t3 = col_sum k 3 ?t2"
      by (rule col_sum_zero_below[OF sh2 _ c(4) c(3)]) simp
    also have "\<dots> = col_sum k 3 ?t1"
      by (rule col_sum_zero_below[OF sh1 _ c(4) c(2)]) simp
    also have "\<dots> = col_sum k 3 t0"
      by (rule col_sum_zero_below[OF sh _ c(4) c(1)]) simp
    finally show ?thesis .
  qed
  have i1: "incomplete_shell ?t1 1 fl = incomplete_shell t0 1 fl" for fl
    unfolding incomplete_shell_def cs1 by (rule refl)
  have i2: "incomplete_shell ?t2 2 fl = incomplete_shell t0 2 fl" for fl
    unfolding incomplete_shell_def cs2 by (rule refl)
  have i3: "incomplete_shell ?t3 3 fl = incomplete_shell t0 3 fl" for fl
    unfolding incomplete_shell_def cs3 by (rule refl)
  have s0: "active_angular True (0, a0) t0 =
      (if incomplete_shell t0 0 (s_cut t0 a0) then Inl VE else Inr ?t1)"
    unfolding VE_def by (rule active_angular_step[OF ne])
  have s1: "active_angular True (1, a1) ?t1 =
      (if incomplete_shell t0 1 (s_cut t0 a1) then Inl VE else Inr ?t2)"
    unfolding VE_def active_angular_step[OF ne1] cut1 i1 by (rule refl)
  have s2: "active_angular True (2, a2) ?t2 =
      (if incomplete_shell t0 2 (s_cut t0 a2) then Inl VE else Inr ?t3)"
    unfolding VE_def active_angular_step[OF ne2] cut2 i2 by (rule refl)
  have s3: "active_angular True (3, a3) ?t3 =
      (if incomplete_shell t0 3 (s_cut t0 a3) then Inl VE else Inr (zero_below 3 (s_cut t0 a3) ?t3))"
    unfolding VE_def active_angular_step[OF ne3] cut3 i3 by (rule refl)
  show ?thesis
    by (simp add: s0 s1 s2 s3 del: One_nat_def)
qed

lemma chain_cells:
  assumes sh: "shaped t0" and r: "r < MAX_LEVEL" and c: "c < MAX_ANG"
  shows "zero_below 3 f3 (zero_below 2 f2 (zero_below 1 f1 (zero_below 0 f0 t0))) ! r ! c =
         (if int r < [f0, f1, f2, f3] ! c then 0 else t0 ! r ! c)"
proof -
  let ?t1 = "zero_below 0 f0 t0"
  let ?t2 = "zero_below 1 f1 ?t1"
  let ?t3 = "zero_below 2 f2 ?t2"
  have k: "(0::nat) < MAX_ANG" "(1::nat) < MAX_ANG" "(2::nat) < MAX_ANG" "(3::nat) < MAX_ANG"
    by (simp_all add: MAX_ANG_def)
  have sh1: "shaped ?t1" using sh by (rule shaped_zero_below)
  have sh2: "shaped ?t2" using sh1 by (rule shaped_zero_below)
  have sh3: "shaped ?t3" using sh2 by (rule shaped_zero_below)
  have e3: "zero_below 3 f3 ?t3 ! r ! c = (if c = 3 \<and> int r < f3 then 0 else ?t3 ! r ! c)"
    by (rule nth_zero_below[OF sh3 r c k(4)])
  have e2: "?t3 ! r ! c = (if c = 2 \<and> int r < f2 then 0 else ?t2 ! r ! c)"
    by (rule nth_zero_below[OF sh2 r c k(3)])
  have e1: "?t2 ! r ! c = (if c = 1 \<and> int r < f1 then 0 else ?t1 ! r ! c)"
    by (rule nth_zero_below[OF sh1 r c k(2)])
  have e0: "?t1 ! r ! c = (if c = 0 \<and> int r < f0 then 0 else t0 ! r ! c)"
    by (rule nth_zero_below[OF sh r c k(1)])
  have "c = 0 \<or> c = 1 \<or> c = 2 \<or> c = 3" using c by (auto simp: MAX_ANG_def)
  then show ?thesis
    unfolding e3 e2 e1 e0 by auto
qed

lemma chain_table:
  assumes sh: "shaped t0"
  shows "zero_below 3 f3 (zero_below 2 f2 (zero_below 1 f1 (zero_below 0 f0 t0))) =
         map (\<lambda>r. map (\<lambda>c. if int r < [f0, f1, f2, f3] ! c then 0 else t0 ! r ! c) [0..<MAX_ANG])
           [0..<MAX_LEVEL]"
  (is "?t4 = ?rhs")
proof (rule nth_equalityI)
  have sh4: "shaped ?t4"
    using sh by (intro shaped_zero_below)
  show "length ?t4 = length ?rhs" using sh4 by (simp add: shaped_nth)
  fix r assume "r < length ?t4"
  then have r: "r < MAX_LEVEL" using sh4 by (simp add: shaped_nth)
  show "?t4 ! r = ?rhs ! r"
  proof (rule nth_equalityI)
    show "length (?t4 ! r) = length (?rhs ! r)" using sh4 r by (simp add: shaped_nth)
    fix c assume "c < length (?t4 ! r)"
    then have c: "c < MAX_ANG" using sh4 r by (simp add: shaped_nth)
    show "?t4 ! r ! c = ?rhs ! r ! c"
      using chain_cells[OF sh r c, of f3 f2 f1 f0] r c by simp
  qed
qed

lemma enumerate_four:
  "enumerate 0 [a0, a1, a2, a3] = [(0, a0), (1, a1), (2, a2), (3, a3)]"
  by (simp add: numeral_2_eq_2 numeral_3_eq_3)

lemma for_each_active_empty:
  "non_empty_level t = [] \<Longrightarrow> for_each (active_angular True) ps t = Inr t"
  by (induction ps) (simp_all add: active_angular_empty)

text \<open>
  C3, as the code has it. For a well-formed library table, every element 0 to 118 and every
  vector of four levels that are not negative and keep at least one s level, the active
  branch of \<^verbatim>\<open>get_active_table\<close> takes the cut of every column from the s column
  (\<^verbatim>\<open>table[:, 0]\<close>): cut = (highest non-empty s level) - N + 1 with N the level count of the
  column. It raises the validation error when, for some column with a positive cut, the
  electrons below the cut are not whole shells, and otherwise returns the configuration
  table with the cells below each column's cut set to zero. A table without a non-empty s
  level is returned as it is.
\<close>

theorem active_table_cut_from_s_column:
  assumes "wf_CONFIGURATION CONFIGURATION" and "element \<le> 118"
    and "length level = 4" and "list_all (\<lambda>N. 0 \<le> N) level" and "1 \<le> level ! 0"
  shows "\<exists>table. get_configuration_table CONFIGURATION element = Inr table \<and>
     get_active_table CONFIGURATION element (LevelList level) True =
       (if non_empty_level table = [] then Inr table
        else if list_ex (\<lambda>c. incomplete_shell table c (s_cut table (level ! c))) [0..<MAX_ANG]
          then Inl (ValueError ''Possibly active orbital electrons are frozen by current setting.'')
          else Inr (map (\<lambda>r. map (\<lambda>c. if int r < s_cut table (level ! c) then 0 else table ! r ! c)
                               [0..<MAX_ANG]) [0..<MAX_LEVEL]))"
proof -
  from wf_CONFIGURATION_row[OF assms(1,2)]
  have f: "fits (CONFIGURATION ! element)"
    and e: "ElementConfiguration CONFIGURATION element = Inr element" by simp_all
  from fill_all_columns[OF f] e obtain table where
    t: "get_configuration_table CONFIGURATION element = Inr table"
    by (auto simp: get_configuration_table_def)
  have sh: "shaped table" using t by (rule shaped_get_configuration_table)
  from assms(3) obtain a0 a1 a2 a3 where lv: "level = [a0, a1, a2, a3]" by (rule four_levels)
  have nn: "0 \<le> py_min level" using assms(4) by (simp add: lv py_min_def)
  have a0: "1 \<le> a0" using assms(5) by (simp add: lv)
  have run: "get_active_table CONFIGURATION element (LevelList level) True =
      for_each (active_angular True) [(0, a0), (1, a1), (2, a2), (3, a3)] table"
    using nn unfolding lv
    by (simp add: get_active_table_def t MAX_ANG_def enumerate_four
        del: One_nat_def enumerate_simps for_each.simps)
  have nths: "level ! 0 = a0" "level ! 1 = a1" "level ! 2 = a2" "level ! 3 = a3"
    by (simp_all add: lv)
  have ex: "list_ex (\<lambda>c. incomplete_shell table c (s_cut table (level ! c))) [0..<MAX_ANG] \<longleftrightarrow>
      incomplete_shell table 0 (s_cut table a0) \<or> incomplete_shell table 1 (s_cut table a1) \<or>
      incomplete_shell table 2 (s_cut table a2) \<or> incomplete_shell table 3 (s_cut table a3)"
    unfolding upt_MAX_ANG by (simp add: nths del: One_nat_def)
  have tab: "map (\<lambda>r. map (\<lambda>c. if int r < s_cut table (level ! c) then 0 else table ! r ! c)
                               [0..<MAX_ANG]) [0..<MAX_LEVEL] =
      zero_below 3 (s_cut table a3) (zero_below 2 (s_cut table a2)
        (zero_below 1 (s_cut table a1) (zero_below 0 (s_cut table a0) table)))"
  proof -
    have "[s_cut table a0, s_cut table a1, s_cut table a2, s_cut table a3] ! c = s_cut table (level ! c)"
      if "c < MAX_ANG" for c
    proof -
      from that have "c = 0 \<or> c = 1 \<or> c = 2 \<or> c = 3" by (auto simp: MAX_ANG_def)
      then show ?thesis by (auto simp: lv)
    qed
    then show ?thesis
      unfolding chain_table[OF sh] by simp
  qed
  have main: "get_active_table CONFIGURATION element (LevelList level) True =
       (if non_empty_level table = [] then Inr table
        else if list_ex (\<lambda>c. incomplete_shell table c (s_cut table (level ! c))) [0..<MAX_ANG]
          then Inl (ValueError ''Possibly active orbital electrons are frozen by current setting.'')
          else Inr (map (\<lambda>r. map (\<lambda>c. if int r < s_cut table (level ! c) then 0 else table ! r ! c)
                               [0..<MAX_ANG]) [0..<MAX_LEVEL]))"
  proof (cases "non_empty_level table = []")
    case True
    then show ?thesis
      unfolding run for_each_active_empty[OF True] by simp
  next
    case False
    show ?thesis
      unfolding run active_levels_chain[OF sh False a0] ex tab using False by simp
  qed
  from t main show ?thesis by blast
qed

theorem active_table_cut_from_s_column_witness:
  "wf_CONFIGURATION ground_state_CONFIGURATION \<and> (11::nat) \<le> 118 \<and>
   length [1, 1, 1, 1::int] = 4 \<and> list_all (\<lambda>N. 0 \<le> N) [1, 1, 1, 1::int] \<and>
   1 \<le> [1, 1, 1, 1::int] ! 0 \<and>
   (\<exists>table. get_configuration_table ground_state_CONFIGURATION 11 = Inr table \<and>
     get_active_table ground_state_CONFIGURATION 11 (LevelList [1, 1, 1, 1]) True =
       (if non_empty_level table = [] then Inr table
        else if list_ex (\<lambda>c. incomplete_shell table c (s_cut table ([1, 1, 1, 1] ! c))) [0..<MAX_ANG]
          then Inl (ValueError ''Possibly active orbital electrons are frozen by current setting.'')
          else Inr (map (\<lambda>r. map (\<lambda>c. if int r < s_cut table ([1, 1, 1, 1] ! c) then 0
                                        else table ! r ! c)
                               [0..<MAX_ANG]) [0..<MAX_LEVEL])))"
proof -
  have h: "(11::nat) \<le> 118" "length [1, 1, 1, 1::int] = 4"
    "list_all (\<lambda>N. 0 \<le> N) [1, 1, 1, 1::int]" "1 \<le> [1, 1, 1, 1::int] ! 0"
    by simp_all
  show ?thesis
    using active_table_cut_from_s_column [OF wf_ground_state h] wf_ground_state h
    by (intro conjI)
qed

text \<open>
  C3, as the claim words it: at sodium with one active level in every column the code cuts
  the p column at the s column's level 2 and empties 2p, where the cut from the p column's
  own highest level would keep its six electrons.
\<close>

theorem active_table_same_column_counterexample:
  "get_active_table ground_state_CONFIGURATION 11 (LevelList [1, 1, 1, 1]) True =
     Inr [[0, 0, 0, 0], [0, 0, 0, 0], [1, 0, 0, 0], [0, 0, 0, 0], [0, 0, 0, 0],
          [0, 0, 0, 0], [0, 0, 0, 0]] \<and>
   spec_get_active_table ground_state_CONFIGURATION 11 [1, 1, 1, 1] =
     Inr [[0, 0, 0, 0], [0, 6, 0, 0], [1, 0, 0, 0], [0, 0, 0, 0], [0, 0, 0, 0],
          [0, 0, 0, 0], [0, 0, 0, 0]] \<and>
   get_active_table ground_state_CONFIGURATION 11 (LevelList [1, 1, 1, 1]) True \<noteq>
     spec_get_active_table ground_state_CONFIGURATION 11 [1, 1, 1, 1]"
proof -
  have a: "get_active_table ground_state_CONFIGURATION 11 (LevelList [1, 1, 1, 1]) True =
     Inr [[0, 0, 0, 0], [0, 0, 0, 0], [1, 0, 0, 0], [0, 0, 0, 0], [0, 0, 0, 0],
          [0, 0, 0, 0], [0, 0, 0, 0]]"
    by code_simp
  have b: "spec_get_active_table ground_state_CONFIGURATION 11 [1, 1, 1, 1] =
     Inr [[0, 0, 0, 0], [0, 6, 0, 0], [1, 0, 0, 0], [0, 0, 0, 0], [0, 0, 0, 0],
          [0, 0, 0, 0], [0, 0, 0, 0]]"
    by code_simp
  show ?thesis unfolding a b by simp
qed

end
